(* ===== verification/Prelude.thy ===== *)
theory Prelude
  imports Main "HOL-Library.Word" "HOL-Library.Multiset"
begin

text \<open>
  Shared vocabulary of the development: the byte type of file and blob contents, the
  JavaScript string test \<open>startsWith\<close>, removal of one element of a list by position
  (a completed asynchronous operation leaves the list of pending operations), and the
  collections of unfolding rules that the component theories fill and their proofs use.
\<close>

named_theorems api_simps "unfolding rules of the operations of fileApi.ts"
named_theorems handler_simps "unfolding rules of the handlers of App.tsx"

type_synonym byte = "8 word"

subsection \<open>String.prototype.startsWith\<close>

definition starts_with :: "string \<Rightarrow> string \<Rightarrow> bool" where
  "starts_with s p \<longleftrightarrow> take (length p) s = p"

lemma starts_with_iff: "starts_with s p \<longleftrightarrow> (\<exists>r. s = p @ r)"
  unfolding starts_with_def by (metis append_eq_conv_conj append_take_drop_id)

lemma starts_with_append [simp]: "starts_with (p @ r) p"
  by (simp add: starts_with_def)

subsection \<open>Characters\<close>

lemma char_of_iff: "n < 256 \<Longrightarrow> char_of n = c \<longleftrightarrow> (of_char c :: nat) = n"
  by (metis char_of_char mod_less of_char_of)

subsection \<open>Lists\<close>

lemma takeWhile_dropWhile_stop:
  "takeWhile P (dropWhile P xs) = []"
  by (induction xs) auto

text \<open>
  The first suffix of a list, from the left, on which an option-valued test succeeds:
  stepping over a first element where the test fails, or stopping at one where it holds.
\<close>

lemma first_hit_Cons_None:
  assumes "m (c # cs) = None"
  shows "(\<exists>i\<le>length (c # cs). m (drop i (c # cs)) = Some v \<and> (\<forall>j<i. m (drop j (c # cs)) = None))
     \<longleftrightarrow> (\<exists>i\<le>length cs. m (drop i cs) = Some v \<and> (\<forall>j<i. m (drop j cs) = None))"
proof
  assume "\<exists>i\<le>length (c # cs). m (drop i (c # cs)) = Some v \<and> (\<forall>j<i. m (drop j (c # cs)) = None)"
  then obtain i where "i \<le> length (c # cs)" "m (drop i (c # cs)) = Some v"
      "\<forall>j<i. m (drop j (c # cs)) = None" by blast
  with assms show "\<exists>i\<le>length cs. m (drop i cs) = Some v \<and> (\<forall>j<i. m (drop j cs) = None)"
    by (cases i) (auto intro!: exI [of _ "i - 1"] dest: spec [of _ "Suc _"])
next
  assume "\<exists>i\<le>length cs. m (drop i cs) = Some v \<and> (\<forall>j<i. m (drop j cs) = None)"
  then obtain i where "i \<le> length cs" "m (drop i cs) = Some v" "\<forall>j<i. m (drop j cs) = None"
    by blast
  with assms show "\<exists>i\<le>length (c # cs). m (drop i (c # cs)) = Some v \<and> (\<forall>j<i. m (drop j (c # cs)) = None)"
    by (intro exI [of _ "Suc i"]) (auto simp: less_Suc_eq_0_disj)
qed

lemma first_hit_Cons_Some:
  assumes "m (c # cs) = Some v'"
  shows "(\<exists>i\<le>length (c # cs). m (drop i (c # cs)) = Some v \<and> (\<forall>j<i. m (drop j (c # cs)) = None))
     \<longleftrightarrow> v' = v"
proof
  assume "\<exists>i\<le>length (c # cs). m (drop i (c # cs)) = Some v \<and> (\<forall>j<i. m (drop j (c # cs)) = None)"
  then obtain i where i: "m (drop i (c # cs)) = Some v" "\<forall>j<i. m (drop j (c # cs)) = None"
    by blast
  have "i = 0" using assms i(2) by (metis drop_0 neq0_conv option.distinct(1))
  with assms i(1) show "v' = v" by simp
next
  assume "v' = v"
  with assms show "\<exists>i\<le>length (c # cs). m (drop i (c # cs)) = Some v \<and> (\<forall>j<i. m (drop j (c # cs)) = None)"
    by (auto intro!: exI [of _ 0])
qed

subsection \<open>Removing the element at a position\<close>

definition drop_nth :: "nat \<Rightarrow> 'a list \<Rightarrow> 'a list" where
  "drop_nth i xs = take i xs @ drop (Suc i) xs"

lemma mset_drop_nth:
  assumes "i < length xs"
  shows "mset (drop_nth i xs) = mset xs - {#xs ! i#}"
proof -
  have "xs = take i xs @ xs ! i # drop (Suc i) xs"
    using assms by (simp add: id_take_nth_drop)
  then have "mset xs = mset (take i xs @ drop (Suc i) xs) + {#xs ! i#}"
    by (metis add_mset_add_single mset.simps(2) mset_append union_mset_add_mset_right)
  then show ?thesis by (simp add: drop_nth_def)
qed

lemma set_drop_nth_subset: "set (drop_nth i xs) \<subseteq> set xs"
  by (auto simp: drop_nth_def dest: in_set_takeD in_set_dropD)

lemma length_drop_nth [simp]: "i < length xs \<Longrightarrow> length (drop_nth i xs) = length xs - 1"
  by (simp add: drop_nth_def)

end
