(* ===== verification/Regex_Filename.thy ===== *)
theory Regex_Filename
  imports Prelude
begin

text \<open>
  The regular expression \<^verbatim>\<open>/filename="(.+)"/\<close> that \<open>fileApi.transformImage\<close>
  (src/React_Frontend/src/api/fileApi.ts, line 52) applies to the Content-Disposition
  header with \<open>String.prototype.match\<close>. The regular expression engine is the
  JavaScript runtime's, not code of the repository, so its semantics for this one pattern
  is modelled from the ECMAScript definition: the leftmost position where
  \<^verbatim>\<open>filename="\<close> starts a match wins; \<^verbatim>\<open>.+\<close> is greedy and backtracks, so the
  captured group ends at the last quote before the end of the line; \<^verbatim>\<open>.\<close> matches
  every character but the line terminators.

  Header values reach the page as byte strings (code points 0 to 255), so a character is
  a HOL \<open>char\<close> and the line terminators are line feed and carriage return
  (U+2028 and U+2029 cannot occur).

  \<open>match_at\<close> is the attempt at one position (literal prefix, then the greedy group with
  its backtracking), \<open>match_search\<close> the scan from left to right.
  \<open>match_search_spec\<close> characterises the result declaratively (leftmost match, greedy
  group on one line); \<open>match_search_complete\<close> says a match is found whenever the
  pattern occurs.
\<close>

definition is_line_terminator :: "char \<Rightarrow> bool" where
  "is_line_terminator c \<longleftrightarrow> c = CHR ''\<newline>'' \<or> c = CHR 0x0D"

text \<open>The characters \<^verbatim>\<open>.\<close> matches.\<close>

abbreviation line_char :: "char \<Rightarrow> bool" where
  "line_char c \<equiv> \<not> is_line_terminator c"

definition filename_key :: string where
  "filename_key = ''filename=\"''"

text \<open>
  Backtracking of the greedy \<^verbatim>\<open>(.+)"\<close>: the group extends to the last quote of the
  rest of the line. \<open>cut_last_quote cs\<close> is the part of \<open>cs\<close> before its last quote.
\<close>

definition cut_last_quote :: "string \<Rightarrow> string option" where
  "cut_last_quote cs =
     (case dropWhile (\<lambda>c. c \<noteq> CHR ''\"'') (rev cs) of
        [] \<Rightarrow> None
      | _ # r \<Rightarrow> Some (rev r))"

definition greedy_group :: "string \<Rightarrow> string option" where
  "greedy_group r =
     (case takeWhile (\<lambda>c. \<not> is_line_terminator c) r of
        [] \<Rightarrow> None
      | c # cs \<Rightarrow> map_option (Cons c) (cut_last_quote cs))"

text \<open>One attempt at a position, and the scan over all positions from the left.\<close>

definition match_at :: "string \<Rightarrow> string option" where
  "match_at s =
     (if starts_with s filename_key then greedy_group (drop (length filename_key) s) else None)"

fun match_search :: "string \<Rightarrow> string option" where
  "match_search [] = match_at []"
| "match_search (c # cs) = (case match_at (c # cs) of Some v \<Rightarrow> Some v | None \<Rightarrow> match_search cs)"



lemma cut_last_quote_Some:
  "cut_last_quote cs = Some u \<longleftrightarrow> (\<exists>w. cs = u @ CHR ''\"'' # w \<and> CHR ''\"'' \<notin> set w)"
proof
  assume h: "cut_last_quote cs = Some u"
  let ?P = "\<lambda>c. c \<noteq> CHR ''\"''"
  obtain q r where d: "dropWhile ?P (rev cs) = q # r" and u: "u = rev r"
    using h by (auto simp: cut_last_quote_def split: list.splits)
  have q: "q = CHR ''\"''"
    using d by (simp add: dropWhile_eq_Cons_conv)
  have "rev cs = takeWhile ?P (rev cs) @ q # r"
    using d takeWhile_dropWhile_id [of ?P "rev cs"] by simp
  then have "cs = rev r @ q # rev (takeWhile ?P (rev cs))"
    by (metis rev_append rev_rev_ident rev.simps(2) append.assoc append_Cons append_Nil)
  moreover have "CHR ''\"'' \<notin> set (rev (takeWhile ?P (rev cs)))"
    by (auto dest: set_takeWhileD)
  ultimately show "\<exists>w. cs = u @ CHR ''\"'' # w \<and> CHR ''\"'' \<notin> set w"
    using u q by blast
next
  assume "\<exists>w. cs = u @ CHR ''\"'' # w \<and> CHR ''\"'' \<notin> set w"
  then obtain w where cs: "cs = u @ CHR ''\"'' # w" and w: "CHR ''\"'' \<notin> set w"
    by blast
  have "dropWhile (\<lambda>c. c \<noteq> CHR ''\"'') (rev w @ CHR ''\"'' # rev u)
      = dropWhile (\<lambda>c. c \<noteq> CHR ''\"'') (CHR ''\"'' # rev u)"
    by (rule dropWhile_append2) (use w in auto)
  then have "dropWhile (\<lambda>c. c \<noteq> CHR ''\"'') (rev cs) = CHR ''\"'' # rev u"
    by (simp add: cs)
  then show "cut_last_quote cs = Some u"
    by (simp add: cut_last_quote_def)
qed


lemma quote_line_char [simp]: "line_char CHR ''\"''"
  by (simp add: is_line_terminator_def)

lemma greedy_group_Some:
  "greedy_group r = Some v \<longleftrightarrow>
     (\<exists>w. r = v @ CHR ''\"'' # w \<and> v \<noteq> [] \<and> (\<forall>c\<in>set v. line_char c)
        \<and> CHR ''\"'' \<notin> set (takeWhile line_char w))"
proof
  assume h: "greedy_group r = Some v"
  obtain c cs where line: "takeWhile line_char r = c # cs"
    using h by (auto simp: greedy_group_def split: list.splits)
  with h obtain u where cut: "cut_last_quote cs = Some u" and v: "v = c # u"
    by (auto simp: greedy_group_def)
  from cut obtain w' where cs: "cs = u @ CHR ''\"'' # w'" and w': "CHR ''\"'' \<notin> set w'"
    by (auto simp: cut_last_quote_Some)
  let ?rest = "dropWhile line_char r"
  have r: "r = v @ CHR ''\"'' # (w' @ ?rest)"
    using takeWhile_dropWhile_id [of line_char r] by (simp add: line cs v)
  have all: "\<forall>x\<in>set (c # cs). line_char x"
    using line by (metis set_takeWhileD)
  then have "takeWhile line_char (w' @ ?rest) = w'"
    by (simp add: cs takeWhile_append2 takeWhile_dropWhile_stop)
  with w' all r show "\<exists>w. r = v @ CHR ''\"'' # w \<and> v \<noteq> [] \<and> (\<forall>c\<in>set v. line_char c)
        \<and> CHR ''\"'' \<notin> set (takeWhile line_char w)"
    by (auto simp: v cs)
next
  assume "\<exists>w. r = v @ CHR ''\"'' # w \<and> v \<noteq> [] \<and> (\<forall>c\<in>set v. line_char c)
        \<and> CHR ''\"'' \<notin> set (takeWhile line_char w)"
  then obtain w c u where r: "r = c # u @ CHR ''\"'' # w" and v: "v = c # u"
      and lc: "\<forall>x\<in>set v. line_char x" and q: "CHR ''\"'' \<notin> set (takeWhile line_char w)"
    by (metis neq_Nil_conv append_Cons)
  have "takeWhile line_char r = c # u @ CHR ''\"'' # takeWhile line_char w"
    using lc by (simp add: r v takeWhile_append2)
  moreover have "cut_last_quote (u @ CHR ''\"'' # takeWhile line_char w) = Some u"
    using q by (auto simp: cut_last_quote_Some)
  ultimately show "greedy_group r = Some v"
    by (simp add: greedy_group_def v)
qed


lemma match_at_Some:
  "match_at s = Some v \<longleftrightarrow>
     (\<exists>w. s = filename_key @ v @ CHR ''\"'' # w \<and> v \<noteq> [] \<and> (\<forall>c\<in>set v. line_char c)
        \<and> CHR ''\"'' \<notin> set (takeWhile line_char w))"
  by (auto simp: match_at_def starts_with_iff greedy_group_Some)

lemma cut_last_quote_None: "cut_last_quote cs = None \<longleftrightarrow> CHR ''\"'' \<notin> set cs"
proof
  assume "cut_last_quote cs = None"
  then have "dropWhile (\<lambda>c. c \<noteq> CHR ''\"'') (rev cs) = []"
    by (simp add: cut_last_quote_def split: list.splits)
  then show "CHR ''\"'' \<notin> set cs"
    by auto
next
  assume "CHR ''\"'' \<notin> set cs"
  then have d: "dropWhile (\<lambda>c. c \<noteq> CHR ''\"'') (rev cs) = []"
    by auto
  show "cut_last_quote cs = None"
    unfolding cut_last_quote_def d by simp
qed

lemma match_at_exists:
  assumes "v \<noteq> []" and "\<forall>c\<in>set v. line_char c"
  shows "match_at (filename_key @ v @ CHR ''\"'' # w) \<noteq> None"
proof -
  obtain c u where v: "v = c # u" using assms(1) by (cases v) auto
  have "takeWhile line_char (v @ CHR ''\"'' # w) = c # u @ CHR ''\"'' # takeWhile line_char w"
    using assms(2) by (simp add: v takeWhile_append2)
  moreover have "cut_last_quote (u @ CHR ''\"'' # takeWhile line_char w) \<noteq> None"
    by (simp add: cut_last_quote_None)
  ultimately show ?thesis
    by (auto simp: match_at_def greedy_group_def)
qed

lemma match_search_drop:
  "match_search s = Some v \<longleftrightarrow>
     (\<exists>i\<le>length s. match_at (drop i s) = Some v \<and> (\<forall>j<i. match_at (drop j s) = None))"
proof (induction s)
  case Nil
  then show ?case by simp
next
  case (Cons c cs)
  show ?case
  proof (cases "match_at (c # cs)")
    case None
    with Cons.IH first_hit_Cons_None [of match_at c cs v] show ?thesis by simp
  next
    case (Some v')
    with first_hit_Cons_Some [of match_at c cs v' v] show ?thesis by simp
  qed
qed


lemma match_search_SomeD:
  assumes "match_search s = Some v"
  shows "\<exists>p w. s = p @ filename_key @ v @ CHR ''\"'' # w \<and> v \<noteq> [] \<and> (\<forall>c\<in>set v. line_char c)
        \<and> CHR ''\"'' \<notin> set (takeWhile line_char w)
        \<and> (\<forall>p' v' w'. s = p' @ filename_key @ v' @ CHR ''\"'' # w' \<and> v' \<noteq> []
              \<and> (\<forall>c\<in>set v'. line_char c) \<longrightarrow> length p \<le> length p')"
proof -
  have "\<exists>i\<le>length s. match_at (drop i s) = Some v \<and> (\<forall>j<i. match_at (drop j s) = None)"
    using assms by (simp only: match_search_drop)
  then obtain i where i: "i \<le> length s" "match_at (drop i s) = Some v"
      and first: "\<forall>j<i. match_at (drop j s) = None"
    by blast
  from i(2) obtain w where w: "drop i s = filename_key @ v @ CHR ''\"'' # w" and
      v: "v \<noteq> []" "\<forall>c\<in>set v. line_char c" "CHR ''\"'' \<notin> set (takeWhile line_char w)"
    unfolding match_at_Some by blast
  have "take i s @ drop i s = s" by (rule append_take_drop_id)
  then have s: "s = take i s @ filename_key @ v @ CHR ''\"'' # w"
    unfolding w by (rule sym)
  have lm: "length (take i s) \<le> length p'"
    if "s = p' @ filename_key @ v' @ CHR ''\"'' # w'" "v' \<noteq> []" "\<forall>c\<in>set v'. line_char c"
    for p' v' w'
  proof (rule ccontr)
    assume "\<not> length (take i s) \<le> length p'"
    then have "length p' < i" using i(1) by simp
    moreover have "drop (length p') s = filename_key @ v' @ CHR ''\"'' # w'"
      using that(1) by simp
    then have "match_at (drop (length p') s) \<noteq> None"
      using match_at_exists [OF that(2,3)] by simp
    ultimately show False
      using first by auto
  qed
  have lm': "\<forall>p' v' w'. s = p' @ filename_key @ v' @ CHR ''\"'' # w' \<and> v' \<noteq> []
              \<and> (\<forall>c\<in>set v'. line_char c) \<longrightarrow> length (take i s) \<le> length p'"
    using lm by blast
  show ?thesis
    using s v lm' by (intro exI [of _ "take i s"] exI [of _ w] conjI) assumption+
qed

lemma match_search_SomeI:
  assumes s: "s = p @ filename_key @ v @ CHR ''\"'' # w"
      and v: "v \<noteq> []" "\<forall>c\<in>set v. line_char c" "CHR ''\"'' \<notin> set (takeWhile line_char w)"
      and least: "\<forall>p' v' w'. s = p' @ filename_key @ v' @ CHR ''\"'' # w' \<and> v' \<noteq> []
              \<and> (\<forall>c\<in>set v'. line_char c) \<longrightarrow> length p \<le> length p'"
  shows "match_search s = Some v"
proof -
  have at: "match_at (drop (length p) s) = Some v"
    unfolding match_at_Some using s v by simp
  have "match_at (drop j s) = None" if j: "j < length p" for j
  proof (rule ccontr)
    assume "match_at (drop j s) \<noteq> None"
    then obtain v0 where "match_at (drop j s) = Some v0" by blast
    then obtain v' w' where d: "drop j s = filename_key @ v' @ CHR ''\"'' # w'"
        and v': "v' \<noteq> []" "\<forall>c\<in>set v'. line_char c"
      unfolding match_at_Some by blast
    have "take j s @ drop j s = s" by (rule append_take_drop_id)
    then have "s = take j s @ filename_key @ v' @ CHR ''\"'' # w'"
      unfolding d by (rule sym)
    with least v' have "length p \<le> length (take j s)" by blast
    with j s show False by simp
  qed
  moreover have "length p \<le> length s" using s by simp
  ultimately show ?thesis
    using at by (auto simp: match_search_drop)
qed

text \<open>
  A header that starts with a parameter list free of the letter f followed by the
  filename parameter matches there: the lemma the header and filename round trips rely on.
\<close>

lemma match_search_after_prefix:
  assumes "CHR ''f'' \<notin> set pre" and "v \<noteq> []" and "\<forall>c\<in>set v. line_char c"
      and "CHR ''\"'' \<notin> set (takeWhile line_char w)"
  shows "match_search (pre @ filename_key @ v @ CHR ''\"'' # w) = Some v"
proof (rule match_search_SomeI [OF refl assms(2-4)], intro allI impI)
  fix p' v' w'
  assume "pre @ filename_key @ v @ CHR ''\"'' # w = p' @ filename_key @ v' @ CHR ''\"'' # w'
      \<and> v' \<noteq> [] \<and> (\<forall>c\<in>set v'. line_char c)"
  then have eq: "pre @ filename_key @ v @ CHR ''\"'' # w = p' @ filename_key @ v' @ CHR ''\"'' # w'"
    by blast
  show "length pre \<le> length p'"
  proof (rule ccontr)
    assume lt: "\<not> length pre \<le> length p'"
    then have "(pre @ filename_key @ v @ CHR ''\"'' # w) ! length p' = pre ! length p'"
      by (simp add: nth_append)
    moreover have "(p' @ filename_key @ v' @ CHR ''\"'' # w') ! length p' = CHR ''f''"
      by (simp add: filename_key_def)
    ultimately have "pre ! length p' = CHR ''f''" using eq by simp
    with lt assms(1) show False by (metis nth_mem not_le)
  qed
qed

text \<open>
  C8: the match of \<^verbatim>\<open>/filename="(.+)"/\<close> returns \<open>v\<close> exactly when the header
  is \<open>p @ filename="v" @ w\<close> where \<open>v\<close> is non-empty and has no line terminator, no
  quote follows on the same line (the group is greedy), and no shorter prefix \<open>p\<close>
  admits a match (the match is the leftmost one).
\<close>

theorem match_search_spec:
  "match_search s = Some v \<longleftrightarrow>
     (\<exists>p w. s = p @ filename_key @ v @ CHR ''\"'' # w \<and> v \<noteq> [] \<and> (\<forall>c\<in>set v. line_char c)
        \<and> CHR ''\"'' \<notin> set (takeWhile line_char w)
        \<and> (\<forall>p' v' w'. s = p' @ filename_key @ v' @ CHR ''\"'' # w' \<and> v' \<noteq> []
              \<and> (\<forall>c\<in>set v'. line_char c) \<longrightarrow> length p \<le> length p'))"
  (is "_ \<longleftrightarrow> ?R")
proof
  assume "match_search s = Some v"
  then show ?R by (rule match_search_SomeD)
next
  assume "\<exists>p w. s = p @ filename_key @ v @ CHR ''\"'' # w \<and> v \<noteq> [] \<and> (\<forall>c\<in>set v. line_char c)
        \<and> CHR ''\"'' \<notin> set (takeWhile line_char w)
        \<and> (\<forall>p' v' w'. s = p' @ filename_key @ v' @ CHR ''\"'' # w' \<and> v' \<noteq> []
              \<and> (\<forall>c\<in>set v'. line_char c) \<longrightarrow> length p \<le> length p')"
  then show "match_search s = Some v"
    by (elim exE conjE) (rule match_search_SomeI)
qed

text \<open>
  C19: whenever the header contains \<^verbatim>\<open>filename="\<close>, then a non-empty run of
  characters without line terminator, then a quote, the match succeeds.
\<close>

theorem match_search_complete:
  assumes "s = p @ filename_key @ v @ CHR ''\"'' # w" and "v \<noteq> []" and "\<forall>c\<in>set v. line_char c"
  shows "\<exists>v'. match_search s = Some v'"
proof -
  let ?P = "\<lambda>j. j \<le> length s \<and> match_at (drop j s) \<noteq> None"
  have "?P (length p)"
    using assms match_at_exists by simp
  then obtain i where i: "?P i" and first: "\<forall>j<i. \<not> ?P j"
    using exists_least_iff [of ?P] by blast
  then obtain v' where "match_at (drop i s) = Some v'" by blast
  moreover have "\<forall>j<i. match_at (drop j s) = None"
    using first i by auto
  ultimately show ?thesis
    using i by (auto simp: match_search_drop)
qed

theorem match_search_spec_witness:
  "match_search ''attachment; filename=\"cat.png\"'' = Some ''cat.png''
   \<and> (\<exists>p w. ''attachment; filename=\"cat.png\"'' = p @ filename_key @ ''cat.png'' @ CHR ''\"'' # w)"
proof -
  have m: "match_search ''attachment; filename=\"cat.png\"'' = Some ''cat.png''"
    by (simp add: match_at_def starts_with_def filename_key_def greedy_group_def
        cut_last_quote_def is_line_terminator_def)
  then show ?thesis
    using match_search_spec [THEN iffD1, OF m] by blast
qed

theorem match_search_complete_witness:
  "\<exists>v'. match_search (''x; '' @ filename_key @ ''a'' @ CHR ''\"'' # ''; y'') = Some v'"
  by (rule match_search_complete [of _ "''x; ''" "''a''" "''; y''"])
     (simp_all add: is_line_terminator_def)

end
