(* ===== verification/File_Api.thy ===== *)
theory File_Api
  imports Regex_Filename
begin

text \<open>
  The API client src/React_Frontend/src/api/fileApi.ts: \<open>checkHealth\<close> (lines 14-22) and
  \<open>transformImage\<close> (lines 29-62), with the data they exchange. The HTTP exchange
  itself is the environment: a request either fails at the transport level
  (\<open>NetFail\<close> with the failure's message) or receives a response (\<open>NetResp\<close>).
  The library call \<open>axios\<close> settles the promise by its default \<open>validateStatus\<close>
  (fulfilled for a status in 200..299, rejected otherwise with the response attached);
  \<open>xhr_deliver\<close> and \<open>axios_settle\<close> model its XHR adapter and that rule, which are
  not code of the repository.
  Headers are the map axios exposes, keyed by lower-case names.
\<close>

text \<open>A \<open>Blob\<close>: its MIME type and its bytes. A \<open>File\<close> of the browser: name, MIME type, bytes.\<close>

datatype blob = Blob string "byte list"

record js_file =
  file_name :: string
  file_type :: string
  file_bytes :: "byte list"

datatype http_method = GET | POST

datatype response_type = RespJson | RespBlob

record http_request =
  req_method :: http_method
  req_url :: string
  req_form :: "(string \<times> js_file) list"
  req_response_type :: response_type

record http_response =
  resp_status :: nat
  resp_headers :: "string \<rightharpoonup> string"
  resp_body :: blob

datatype net_outcome = NetFail string | NetResp http_response

record axios_error =
  err_message :: string
  err_response :: "http_response option"

record transform_response =
  tr_data :: blob
  tr_filename :: string

text \<open>The decimal digits of a status code, as axios writes them into its error message.\<close>

fun decimal :: "nat \<Rightarrow> string" where
  "decimal n = (if n < 10 then [char_of (48 + n)] else decimal (n div 10) @ [char_of (48 + n mod 10)])"

declare decimal.simps [simp del]

definition validate_status :: "nat \<Rightarrow> bool" where
  "validate_status s \<longleftrightarrow> 200 \<le> s \<and> s < 300"

text \<open>
  The XHR adapter of axios hands a completed request to \<open>settle\<close> only when its status is
  not 0 (a status 0 outside a \<^verbatim>\<open>file:\<close> URL is a failed request, which its
  \<open>onerror\<close> rejects with ''Network Error''); \<open>settle\<close> itself fulfils for a falsy
  status or one that passes \<open>validateStatus\<close>.
\<close>

definition xhr_deliver :: "net_outcome \<Rightarrow> net_outcome" where
  "xhr_deliver out =
     (case out of NetResp r \<Rightarrow> if resp_status r = 0 then NetFail ''Network Error'' else out | _ \<Rightarrow> out)"

definition axios_settle :: "net_outcome \<Rightarrow> axios_error + http_response" where
  "axios_settle out =
     (case out of
        NetFail m \<Rightarrow> Inl \<lparr>err_message = m, err_response = None\<rparr>
      | NetResp r \<Rightarrow>
          if resp_status r = 0 \<or> validate_status (resp_status r) then Inr r
          else Inl \<lparr>err_message = ''Request failed with status code '' @ decimal (resp_status r),
                    err_response = Some r\<rparr>)"

definition api_base_url :: string where
  "api_base_url = ''http://localhost:8080''"

definition health_request :: http_request where
  "health_request =
     \<lparr>req_method = GET, req_url = api_base_url @ ''/health'', req_form = [], req_response_type = RespJson\<rparr>"

definition check_health :: "net_outcome \<Rightarrow> bool" where
  "check_health out = (case axios_settle (xhr_deliver out) of Inl _ \<Rightarrow> False | Inr r \<Rightarrow> resp_status r = 200)"

definition transform_request :: "js_file \<Rightarrow> string \<Rightarrow> http_request" where
  "transform_request f targetFormat =
     \<lparr>req_method = POST, req_url = api_base_url @ ''/transform?to='' @ targetFormat,
      req_form = [(''file'', f)], req_response_type = RespBlob\<rparr>"

text \<open>Lines 47-56: the output filename, from the Content-Disposition header when it matches.\<close>

definition derive_filename :: "string \<Rightarrow> string option \<Rightarrow> string" where
  "derive_filename targetFormat contentDisposition =
     (let filename = ''converted.'' @ targetFormat in
      case contentDisposition of
        None \<Rightarrow> filename
      | Some cd \<Rightarrow>
          if cd \<noteq> [] then (case match_search cd of None \<Rightarrow> filename | Some m \<Rightarrow> m)
          else filename)"

definition transform_image :: "string \<Rightarrow> net_outcome \<Rightarrow> axios_error + transform_response" where
  "transform_image targetFormat out =
     (case axios_settle (xhr_deliver out) of
        Inl e \<Rightarrow> Inl e
      | Inr r \<Rightarrow> Inr \<lparr>tr_data = resp_body r,
                     tr_filename = derive_filename targetFormat (resp_headers r ''content-disposition'')\<rparr>)"

declare xhr_deliver_def [api_simps] axios_settle_def [api_simps] check_health_def [api_simps] transform_image_def [api_simps]
  validate_status_def [api_simps]

lemma derive_filename_not_Nil: "derive_filename fmt cd \<noteq> []"
  by (auto simp: derive_filename_def Let_def split: option.split dest: match_search_SomeD)

lemma transform_image_Inl:
  "transform_image fmt out = Inl e \<longleftrightarrow> axios_settle (xhr_deliver out) = Inl e"
  by (simp add: transform_image_def split: sum.split)

lemma axios_settle_Inl:
  "axios_settle (xhr_deliver out) = Inl e \<longleftrightarrow>
     (\<exists>m. out = NetFail m \<and> e = \<lparr>err_message = m, err_response = None\<rparr>)
     \<or> (\<exists>r. out = NetResp r \<and> resp_status r = 0
          \<and> e = \<lparr>err_message = ''Network Error'', err_response = None\<rparr>)
     \<or> (\<exists>r. out = NetResp r \<and> resp_status r \<noteq> 0 \<and> \<not> validate_status (resp_status r)
          \<and> e = \<lparr>err_message = ''Request failed with status code '' @ decimal (resp_status r),
                 err_response = Some r\<rparr>)"
  by (cases out) (auto simp: axios_settle_def xhr_deliver_def)

text \<open>
  C20: a header \<^verbatim>\<open>attachment; filename="n"\<close> gives back the name \<open>n\<close> for every
  non-empty name without line terminator, whatever quotes \<open>n\<close> contains.
\<close>

theorem derive_filename_roundtrip:
  assumes "n \<noteq> []" and "\<forall>c\<in>set n. line_char c"
  shows "derive_filename fmt (Some (''attachment; filename=\"'' @ n @ ''\"'')) = n"
proof -
  have "match_search (''attachment; '' @ filename_key @ n @ CHR ''\"'' # []) = Some n"
    by (rule match_search_after_prefix) (use assms in simp_all)
  then show ?thesis
    by (simp add: derive_filename_def filename_key_def)
qed

theorem derive_filename_roundtrip_witness:
  "derive_filename ''png'' (Some (''attachment; filename=\"'' @ ''cat.png'' @ ''\"'')) = ''cat.png''"
  by (rule derive_filename_roundtrip) (simp_all add: is_line_terminator_def)

text \<open>
  C29: when further quoted parameters follow the filename on the header line, the
  greedy group runs to the last quote, so the derived filename contains the closing quote
  and the other parameters: \<^verbatim>\<open>attachment; filename="n"; k="x"\<close> gives
  \<^verbatim>\<open>n"; k="x\<close>.
\<close>

theorem derive_filename_greedy:
  assumes "n \<noteq> []" and "\<forall>c\<in>set (n @ k @ x). line_char c"
  shows "derive_filename fmt (Some (''attachment; filename=\"'' @ n @ ''\"; '' @ k @ ''=\"'' @ x @ ''\"''))
         = n @ ''\"; '' @ k @ ''=\"'' @ x"
proof -
  have "match_search (''attachment; '' @ filename_key @ (n @ ''\"; '' @ k @ ''=\"'' @ x) @ CHR ''\"'' # [])
        = Some (n @ ''\"; '' @ k @ ''=\"'' @ x)"
    by (rule match_search_after_prefix) (use assms in \<open>auto simp: is_line_terminator_def\<close>)
  then show ?thesis
    by (simp add: derive_filename_def filename_key_def)
qed

theorem derive_filename_greedy_witness:
  "derive_filename ''png'' (Some (''attachment; filename=\"'' @ ''a.png'' @ ''\"; '' @ ''size'' @ ''=\"'' @ ''5'' @ ''\"''))
   = ''a.png\"; size=\"5''"
  using derive_filename_greedy [of "''a.png''" "''size''" "''5''" "''png''"]
  by (simp add: is_line_terminator_def)

text \<open>
  C21: \<open>checkHealth\<close> reports a healthy backend exactly when the request receives a
  response with status 200.
\<close>

theorem check_health_iff: "check_health out \<longleftrightarrow> (\<exists>r. out = NetResp r \<and> resp_status r = 200)"
  by (auto simp: api_simps split: net_outcome.splits)

text \<open>
  C22: \<open>transformImage\<close> fulfils exactly when the response status is in 200..299; its
  result carries the response body and the filename derived from the Content-Disposition
  header and the requested format.
\<close>

theorem transform_image_Inr:
  "transform_image fmt out = Inr t \<longleftrightarrow>
     (\<exists>r. out = NetResp r \<and> 200 \<le> resp_status r \<and> resp_status r < 300 \<and> tr_data t = resp_body r
          \<and> tr_filename t = derive_filename fmt (resp_headers r ''content-disposition''))"
  by (auto simp: api_simps split: net_outcome.splits sum.splits)

end
