(* ===== verification/Data_Url.thy ===== *)
theory Data_Url
  imports File_Api
begin

text \<open>
  The preview of \<open>handleFileSelect\<close> (App.tsx lines 42-47) is the result of the
  browser's \<open>FileReader.readAsDataURL\<close>: the text \<open>data:\<close>, the file's type
  (\<open>application/octet-stream\<close> when the type is empty, as Chromium and Firefox
  write it; the File API standard leaves the type out there), \<open>;base64,\<close> and the
  file's bytes in the base64 encoding of RFC 4648 (alphabet \<open>A-Z a-z 0-9 + /\<close>,
  three bytes to four characters, \<open>=\<close> padding). The browser's routine is not in
  the repository and is modelled from the File API standard, together with the reading
  of a data URL that the image element applies to it; the theory proves that decoding
  inverts encoding and that a data URL read back gives the file's type and bytes.
\<close>

subsection \<open>Base64 (RFC 4648, section 4)\<close>

definition b64_char :: "nat \<Rightarrow> char" where
  "b64_char i =
     (if i < 26 then char_of (65 + i)
      else if i < 52 then char_of (71 + i)
      else if i < 62 then char_of (i - 4)
      else if i = 62 then CHR ''+'' else CHR ''/'')"

definition b64_index :: "char \<Rightarrow> nat option" where
  "b64_index c =
     (let n = of_char c in
      if 65 \<le> n \<and> n \<le> 90 then Some (n - 65)
      else if 97 \<le> n \<and> n \<le> 122 then Some (n - 71)
      else if 48 \<le> n \<and> n \<le> 57 then Some (n + 4)
      else if n = 43 then Some 62
      else if n = 47 then Some 63
      else None)"

fun base64_encode :: "byte list \<Rightarrow> string" where
  "base64_encode (a # b # c # rest) =
     [b64_char (unat a div 4), b64_char (unat a mod 4 * 16 + unat b div 16),
      b64_char (unat b mod 16 * 4 + unat c div 64), b64_char (unat c mod 64)] @ base64_encode rest"
| "base64_encode [a, b] =
     [b64_char (unat a div 4), b64_char (unat a mod 4 * 16 + unat b div 16),
      b64_char (unat b mod 16 * 4), CHR ''='']"
| "base64_encode [a] = [b64_char (unat a div 4), b64_char (unat a mod 4 * 16), CHR ''='', CHR ''='']"
| "base64_encode [] = []"

fun base64_decode :: "string \<Rightarrow> byte list option" where
  "base64_decode [] = Some []"
| "base64_decode (c0 # c1 # c2 # c3 # rest) =
     (case (b64_index c0, b64_index c1) of
        (Some i0, Some i1) \<Rightarrow>
          if c2 = CHR ''='' \<and> c3 = CHR ''='' \<and> rest = [] then Some [of_nat (i0 * 4 + i1 div 16)]
          else if c3 = CHR ''='' \<and> rest = [] then
            (case b64_index c2 of
               Some i2 \<Rightarrow> Some [of_nat (i0 * 4 + i1 div 16), of_nat (i1 mod 16 * 16 + i2 div 4)]
             | None \<Rightarrow> None)
          else
            (case (b64_index c2, b64_index c3) of
               (Some i2, Some i3) \<Rightarrow>
                 map_option (\<lambda>bs. [of_nat (i0 * 4 + i1 div 16), of_nat (i1 mod 16 * 16 + i2 div 4),
                                    of_nat (i2 mod 4 * 64 + i3)] @ bs) (base64_decode rest)
             | _ \<Rightarrow> None)
      | _ \<Rightarrow> None)"
| "base64_decode _ = None"

subsection \<open>FileReader.readAsDataURL\<close>

definition read_as_data_url :: "js_file \<Rightarrow> string" where
  "read_as_data_url f =
     ''data:'' @ (if file_type f = [] then ''application/octet-stream'' else file_type f) @ '';base64,''
     @ base64_encode (file_bytes f)"

text \<open>
  Reading a data URL back (the URL processor the image element applies to the preview
  source): the text after \<open>data:\<close> is split at its first comma, the part before it
  names the type and ends in \<open>;base64\<close>, the part after it is decoded.
\<close>

definition base64_suffix :: string where
  "base64_suffix = '';base64''"

definition parse_data_url :: "string \<Rightarrow> (string \<times> byte list) option" where
  "parse_data_url u =
     (if starts_with u ''data:'' then
        (let r = drop 5 u; m = takeWhile (\<lambda>c. c \<noteq> CHR '','') r; p = drop (Suc (length m)) r in
         if length m < length r \<and> starts_with (rev m) (rev base64_suffix) then
           map_option (\<lambda>bs. (take (length m - length base64_suffix) m, bs)) (base64_decode p)
         else None)
      else None)"

subsection \<open>Lemmas\<close>

lemma read_as_data_url_not_Nil [simp]: "read_as_data_url f \<noteq> []"
  by (simp add: read_as_data_url_def)

lemma b64_index_char: "i < 64 \<Longrightarrow> b64_index (b64_char i) = Some i"
  by (auto simp: b64_char_def b64_index_def Let_def)

lemma b64_char_not_pad:
  assumes "i < 64"
  shows "b64_char i \<noteq> CHR ''=''"
proof
  assume "b64_char i = CHR ''=''"
  then have "b64_index (b64_char i) = None" by (simp add: b64_index_def)
  with b64_index_char [OF assms] show False by simp
qed

lemma unat_byte_lt: "unat (a :: byte) < 256"
  using unsigned_less [of a] by simp

lemma div_lt_of_lt: "x < n * d \<Longrightarrow> 0 < d \<Longrightarrow> (x::nat) div d < n"
  by (simp add: div_less_iff_less_mult)

lemma mod_mul_add_div:
  fixes a b k :: nat
  assumes "b < k" and "0 < k"
  shows "(a * k + b) div k = a" and "(a * k + b) mod k = b"
  using assms by simp_all

lemma b64_group_arith:
  fixes x y z :: nat
  assumes "x < 256" "y < 256" "z < 256"
  shows "x div 4 < 64" "x mod 4 * 16 + y div 16 < 64" "y mod 16 * 4 + z div 64 < 64" "z mod 64 < 64"
    "x mod 4 * 16 < 64" "y mod 16 * 4 < 64"
    "x div 4 * 4 + (x mod 4 * 16 + y div 16) div 16 = x"
    "(x mod 4 * 16 + y div 16) mod 16 * 16 + (y mod 16 * 4 + z div 64) div 4 = y"
    "(y mod 16 * 4 + z div 64) mod 4 * 64 + z mod 64 = z"
    "x div 4 * 4 + x mod 4 * 16 div 16 = x"
    "(x mod 4 * 16 + y div 16) mod 16 * 16 + y mod 16 * 4 div 4 = y"
proof -
  have y16: "y div 16 < 16" and z64: "z div 64 < 4"
    using assms by (simp_all add: div_lt_of_lt)
  have m4: "x mod 4 < 4" "y mod 16 < 16" "z mod 64 < 64" by simp_all
  show "x div 4 < 64" using assms(1) by (simp add: div_lt_of_lt)
  show "x mod 4 * 16 + y div 16 < 64" "y mod 16 * 4 + z div 64 < 64" "z mod 64 < 64"
    "x mod 4 * 16 < 64" "y mod 16 * 4 < 64"
    using y16 z64 m4 by linarith+
  have e1: "(x mod 4 * 16 + y div 16) div 16 = x mod 4" "(x mod 4 * 16 + y div 16) mod 16 = y div 16"
    using mod_mul_add_div [OF y16] by simp_all
  have e2: "(y mod 16 * 4 + z div 64) div 4 = y mod 16" "(y mod 16 * 4 + z div 64) mod 4 = z div 64"
    using mod_mul_add_div [OF z64] by simp_all
  show "x div 4 * 4 + (x mod 4 * 16 + y div 16) div 16 = x"
    unfolding e1 by simp
  show "(x mod 4 * 16 + y div 16) mod 16 * 16 + (y mod 16 * 4 + z div 64) div 4 = y"
    unfolding e1 e2 by simp
  show "(y mod 16 * 4 + z div 64) mod 4 * 64 + z mod 64 = z"
    unfolding e2 by simp
  show "x div 4 * 4 + x mod 4 * 16 div 16 = x" by simp
  show "(x mod 4 * 16 + y div 16) mod 16 * 16 + y mod 16 * 4 div 4 = y"
    unfolding e1 by simp
qed

lemma base64_roundtrip: "base64_decode (base64_encode bs) = Some bs"
proof (induction bs rule: base64_encode.induct)
  case (1 a b c rest)
  have u: "unat a < 256" "unat b < 256" "unat c < 256" by (simp_all add: unat_byte_lt)
  note ar = b64_group_arith [OF u]
  show ?case
    using 1 ar b64_char_not_pad [OF ar(3)] b64_char_not_pad [OF ar(4)]
    by (simp add: b64_index_char)
next
  case (2 a b)
  have u: "unat a < 256" "unat b < 256" "unat (0::byte) < 256" by (simp_all add: unat_byte_lt)
  note ar = b64_group_arith [OF u]
  show ?case
    using ar b64_char_not_pad [OF ar(6)] by (simp add: b64_index_char)
next
  case (3 a)
  have u: "unat a < 256" "unat (0::byte) < 256" "unat (0::byte) < 256" by (simp_all add: unat_byte_lt)
  note ar = b64_group_arith [OF u]
  show ?case
    using ar by (simp add: b64_index_char)
next
  case 4
  then show ?case by simp
qed

lemma data_url_roundtrip:
  assumes "file_type f \<noteq> []" and "CHR '','' \<notin> set (file_type f)"
  shows "parse_data_url (read_as_data_url f) = Some (file_type f, file_bytes f)"
proof -
  define m where "m = file_type f @ base64_suffix"
  have nc: "\<forall>c\<in>set m. c \<noteq> CHR '',''" using assms(2) by (auto simp: m_def base64_suffix_def)
  have r: "drop 5 (read_as_data_url f) = m @ CHR '','' # base64_encode (file_bytes f)"
    using assms(1) by (simp add: read_as_data_url_def m_def base64_suffix_def)
  have tw: "takeWhile (\<lambda>c. c \<noteq> CHR '','') (m @ CHR '','' # base64_encode (file_bytes f)) = m"
    using nc by (simp add: takeWhile_append2)
  have "starts_with (rev m) (rev base64_suffix)"
    by (simp add: m_def)
  moreover have "starts_with (read_as_data_url f) ''data:''"
    unfolding read_as_data_url_def by (rule starts_with_append)
  ultimately show ?thesis
    unfolding parse_data_url_def r tw Let_def
    by (simp add: base64_roundtrip m_def)
qed

end
