(* ===== verification/Display_Format.thy ===== *)
theory Display_Format
  imports Complex_Main File_Api
begin

text \<open>
  The texts the page computes for display (App.tsx lines 174-176 and 222): the size of
  the selected file in kilobytes, \<open>(selectedFile.size / 1024).toFixed(2)\<close>, and the
  download label \<open>targetFormat.toUpperCase()\<close>. \<open>Number.prototype.toFixed\<close> and
  \<open>String.prototype.toUpperCase\<close> are the engine's and are modelled from ECMAScript:
  \<open>toFixed(2)\<close> of \<open>x\<close> below \<open>10^21\<close> writes the integer \<open>n\<close> nearest to
  \<open>100 x\<close> (the larger of two equally near) in decimal, padded to three digits, with a
  point before the last two; at or above \<open>10^21\<close> it falls back to \<open>ToString\<close>, which
  is not modelled (the value \<open>None\<close>). \<open>size / 1024\<close> is exact in a double for every
  safe-integer size, so the quotient is modelled as the rational \<open>p / q\<close>. The lemmas read
  the text back (\<open>parse_fixed2\<close>) and show the value shown is the nearest hundredth.
\<close>

subsection \<open>Decimal digits\<close>

definition is_digit :: "char \<Rightarrow> bool" where
  "is_digit c \<longleftrightarrow> 48 \<le> (of_char c :: nat) \<and> (of_char c :: nat) \<le> 57"

definition digits_val :: "string \<Rightarrow> nat" where
  "digits_val s = foldl (\<lambda>a c. 10 * a + (of_char c - 48)) 0 s"

definition parse_nat :: "string \<Rightarrow> nat option" where
  "parse_nat s = (if s \<noteq> [] \<and> (\<forall>c\<in>set s. is_digit c) then Some (digits_val s) else None)"

subsection \<open>Number.prototype.toFixed(2) and the size text\<close>

definition to_fixed2_digits :: "nat \<Rightarrow> string" where
  "to_fixed2_digits n =
     (let m = decimal n;
          m' = (if length m \<le> 2 then replicate (3 - length m) CHR ''0'' @ m else m);
          k = length m'
      in take (k - 2) m' @ ''.'' @ drop (k - 2) m')"

definition to_fixed2_ratio :: "nat \<Rightarrow> nat \<Rightarrow> string option" where
  "to_fixed2_ratio p q =
     (if 10 ^ 21 * q \<le> p then None else Some (to_fixed2_digits ((200 * p + q) div (2 * q))))"

definition size_kb_text :: "nat \<Rightarrow> string option" where
  "size_kb_text bytes = to_fixed2_ratio bytes 1024"

text \<open>String.prototype.toUpperCase on the ASCII letters (the format strings are ASCII).\<close>

definition to_upper_ascii :: "string \<Rightarrow> string" where
  "to_upper_ascii s =
     map (\<lambda>c. let n = (of_char c :: nat) in if 97 \<le> n \<and> n \<le> 122 then char_of (n - 32) else c) s"

text \<open>Reading a \<open>toFixed(2)\<close> text back: digits, a point, two digits.\<close>

definition parse_fixed2 :: "string \<Rightarrow> nat option" where
  "parse_fixed2 t =
     (let a = takeWhile (\<lambda>c. c \<noteq> CHR ''.'') t; b = drop (Suc (length a)) t in
      if length a < length t \<and> length b = 2 then
        (case (parse_nat a, parse_nat b) of (Some x, Some y) \<Rightarrow> Some (100 * x + y) | _ \<Rightarrow> None)
      else None)"

subsection \<open>Lemmas\<close>

lemma digits_val_snoc: "digits_val (s @ [c]) = 10 * digits_val s + (of_char c - 48)"
  by (simp add: digits_val_def)

lemma digits_val_Nil [simp]: "digits_val [] = 0"
  by (simp add: digits_val_def)

lemma digits_val_append: "digits_val (xs @ ys) = digits_val xs * 10 ^ length ys + digits_val ys"
proof (induction ys rule: rev_induct)
  case Nil
  then show ?case by simp
next
  case (snoc c ys)
  have "digits_val (xs @ ys @ [c]) = 10 * digits_val (xs @ ys) + (of_char c - 48)"
    using digits_val_snoc [of "xs @ ys" c] by simp
  then show ?case by (simp add: snoc digits_val_snoc algebra_simps)
qed

lemma digits_val_lt: "\<forall>c\<in>set s. is_digit c \<Longrightarrow> digits_val s < 10 ^ length s"
proof (induction s rule: rev_induct)
  case Nil
  then show ?case by (simp add: digits_val_def)
next
  case (snoc c s)
  then have "of_char c - 48 < (10::nat)" by (auto simp: is_digit_def)
  with snoc show ?case by (simp add: digits_val_snoc)
qed

lemma digit_char: "d < 10 \<Longrightarrow> is_digit (char_of (48 + d)) \<and> of_char (char_of (48 + d)) - 48 = (d::nat)"
  by (simp add: is_digit_def)

lemma decimal_digits: "(\<forall>c\<in>set (decimal n). is_digit c) \<and> digits_val (decimal n) = n \<and> decimal n \<noteq> []"
proof (induction n rule: decimal.induct)
  case (1 n)
  show ?case
  proof (cases "n < 10")
    case True
    then show ?thesis using digit_char [of n] digits_val_snoc [of "[]"] by (simp add: decimal.simps)
  next
    case False
    have "n mod 10 < 10" by simp
    with False 1 show ?thesis using digit_char [of "n mod 10"]
      by (simp add: decimal.simps [of n] digits_val_snoc)
  qed
qed

lemma dot_not_digit: "\<not> is_digit CHR ''.''"
  by (simp add: is_digit_def)

lemma parse_fixed2_split:
  assumes "\<forall>c\<in>set a. is_digit c" and "\<forall>c\<in>set b. is_digit c" and "a \<noteq> []" and "length b = 2"
  shows "parse_fixed2 (a @ ''.'' @ b) = Some (digits_val (a @ b))"
proof -
  have "\<forall>c\<in>set a. c \<noteq> CHR ''.''" using assms(1) dot_not_digit by blast
  then have tw: "takeWhile (\<lambda>c. c \<noteq> CHR ''.'') (a @ ''.'' @ b) = a"
    by (simp add: takeWhile_append2)
  have "b \<noteq> []" using assms(4) by auto
  with assms show ?thesis
    unfolding parse_fixed2_def tw Let_def by (simp add: parse_nat_def digits_val_append)
qed

lemma zeros_digits: "(\<forall>c\<in>set (replicate k CHR ''0''). is_digit c) \<and> digits_val (replicate k CHR ''0'') = 0"
  by (induction k) (auto simp: is_digit_def digits_val_def)

lemma to_fixed2_parts:
  obtains a b where "to_fixed2_digits n = a @ ''.'' @ b" and "\<forall>c\<in>set a. is_digit c"
    and "\<forall>c\<in>set b. is_digit c" and "a \<noteq> []" and "length b = 2" and "digits_val (a @ b) = n"
proof -
  define m where "m = decimal n"
  define m' where "m' = (if length m \<le> 2 then replicate (3 - length m) CHR ''0'' @ m else m)"
  have dm: "\<forall>c\<in>set m. is_digit c" "digits_val m = n"
    using decimal_digits [of n] by (simp_all add: m_def)
  have d': "\<forall>c\<in>set m'. is_digit c" "digits_val m' = n" "3 \<le> length m'"
    using dm zeros_digits [of "3 - length m"] by (auto simp: m'_def digits_val_append)
  let ?a = "take (length m' - 2) m'" and ?b = "drop (length m' - 2) m'"
  have "to_fixed2_digits n = ?a @ ''.'' @ ?b"
    by (simp add: to_fixed2_digits_def m'_def m_def Let_def)
  moreover have "?a @ ?b = m'" by simp
  moreover have "?a \<noteq> []" "length ?b = 2" using d'(3) by auto
  moreover have "\<forall>c\<in>set ?a. is_digit c" "\<forall>c\<in>set ?b. is_digit c"
    using d'(1) by (auto dest: in_set_takeD in_set_dropD)
  ultimately show ?thesis using that d'(2) by metis
qed

lemma fixed2_roundtrip: "parse_fixed2 (to_fixed2_digits n) = Some n"
proof -
  obtain a b where "to_fixed2_digits n = a @ ''.'' @ b" "\<forall>c\<in>set a. is_digit c"
    "\<forall>c\<in>set b. is_digit c" "a \<noteq> []" "length b = 2" "digits_val (a @ b) = n"
    by (rule to_fixed2_parts)
  then show ?thesis using parse_fixed2_split [of a b] by simp
qed

lemma parse_nat_decimal: "parse_nat (decimal n) = Some n"
  using decimal_digits [of n] by (simp add: parse_nat_def)


lemma round_half_up_bounds:
  assumes "0 < q"
  shows "real ((200 * p + q) div (2 * q)) / 100 - 1 / 200 \<le> real p / real q"
    and "real p / real q < real ((200 * p + q) div (2 * q)) / 100 + 1 / 200"
proof -
  define n where "n = (200 * p + q) div (2 * q)"
  have lo: "n * (2 * q) \<le> 200 * p + q" unfolding n_def by (rule div_times_less_eq_dividend)
  have "(200 * p + q) mod (2 * q) < 2 * q" using assms by simp
  moreover have "n * (2 * q) + (200 * p + q) mod (2 * q) = 200 * p + q"
    unfolding n_def by (rule div_mult_mod_eq)
  ultimately have hi: "200 * p + q < n * (2 * q) + 2 * q" by linarith
  have q: "0 < real q" using assms by simp
  have "real (n * (2 * q)) \<le> real (200 * p + q)" using lo by (rule of_nat_mono)
  then have "real n * (2 * real q) \<le> 200 * real p + real q" by simp
  with q show "real n / 100 - 1 / 200 \<le> real p / real q" unfolding n_def [symmetric]
    by (simp add: field_simps)
  have "real (200 * p + q) < real (n * (2 * q) + 2 * q)" using hi by (simp only: of_nat_less_iff)
  then have "200 * real p + real q < real n * (2 * real q) + 2 * real q" by simp
  with q show "real p / real q < real n / 100 + 1 / 200" unfolding n_def [symmetric]
    by (simp add: field_simps)
qed

lemma nearest_of_bounds:
  fixes x :: real
  assumes "real n / 100 - 1 / 200 \<le> x" and "x < real n / 100 + 1 / 200"
  shows "\<bar>real n / 100 - x\<bar> \<le> \<bar>real m / 100 - x\<bar>
    \<and> (\<bar>real m / 100 - x\<bar> = \<bar>real n / 100 - x\<bar> \<longrightarrow> m \<le> n)"
proof (cases "m \<le> n")
  case True
  then show ?thesis
  proof (cases "m = n")
    case False
    with True have "real m \<le> real n - 1" by linarith
    with assms show ?thesis by (simp add: True abs_if)
  qed simp
next
  case False
  then have "real n + 1 \<le> real m" by linarith
  with assms show ?thesis by (simp add: abs_if)
qed

lemma to_fixed2_ratio_nearest:
  assumes "0 < q" and "p < 10 ^ 21 * q"
  shows "\<exists>t n. to_fixed2_ratio p q = Some t \<and> parse_fixed2 t = Some n
    \<and> (\<forall>m. \<bar>real n / 100 - real p / real q\<bar> \<le> \<bar>real m / 100 - real p / real q\<bar>
        \<and> (\<bar>real m / 100 - real p / real q\<bar> = \<bar>real n / 100 - real p / real q\<bar> \<longrightarrow> m \<le> n))"
proof -
  let ?n = "(200 * p + q) div (2 * q)"
  have "to_fixed2_ratio p q = Some (to_fixed2_digits ?n)"
    using assms(2) by (simp add: to_fixed2_ratio_def)
  moreover have "parse_fixed2 (to_fixed2_digits ?n) = Some ?n" by (rule fixed2_roundtrip)
  moreover have "\<forall>m. \<bar>real ?n / 100 - real p / real q\<bar> \<le> \<bar>real m / 100 - real p / real q\<bar>
        \<and> (\<bar>real m / 100 - real p / real q\<bar> = \<bar>real ?n / 100 - real p / real q\<bar> \<longrightarrow> m \<le> ?n)"
    using nearest_of_bounds [OF round_half_up_bounds [OF assms(1)]] by blast
  ultimately show ?thesis by blast
qed

end
