(* ===== verification/App_State.thy ===== *)
theory App_State
  imports Data_Url Display_Format
begin

text \<open>
  The state of the component \<open>App\<close> (src/React_Frontend/src/App.tsx lines 6-17): its
  status and format types, the values its error message holds at run time, the record
  of its React state hooks with their initial values, and the asynchronous operations
  its handlers start together with the outcomes that complete them.
\<close>

text \<open>Line 6, \<open>ConversionStatus\<close>; line 11, the two target formats.\<close>

datatype conversion_status = Idle | Converting | Success | Error

datatype target_format = Png | Jpg

fun format_str :: "target_format \<Rightarrow> string" where
  "format_str Png = ''png''"
| "format_str Jpg = ''jpg''"

text \<open>
  The value \<open>errorMessage\<close> holds at run time: a string, or the \<open>Blob\<close> that
  \<open>error.response.data\<close> is for a request made with \<open>responseType: 'blob'\<close>.
\<close>

datatype js_value = JsStr string | JsBlob blob

record app_state =
  selectedFile :: "js_file option"
  previewUrl :: "string option"
  targetFormat :: target_format
  status :: conversion_status
  errorMessage :: js_value
  convertedBlob :: "blob option"
  convertedFilename :: string
  isBackendHealthy :: "bool option"
  isDragging :: bool

definition init_app :: app_state where
  "init_app =
     \<lparr>selectedFile = None, previewUrl = None, targetFormat = Png, status = Idle,
      errorMessage = JsStr '''', convertedBlob = None, convertedFilename = '''',
      isBackendHealthy = None, isDragging = False\<rparr>"

text \<open>
  Operations in flight. \<open>Transform\<close> keeps the file and the format that the
  \<open>handleConvert\<close> closure captured when the request was sent; the completions are
  the outcomes the environment delivers. A preview read that loads delivers the file's
  data URL (\<open>read_as_data_url\<close>, theory \<open>Data_Url\<close>).
\<close>

datatype async_op = HealthCheck | ReadPreview js_file | Transform js_file target_format

datatype completion = HealthDone net_outcome | ReadLoad | ReadError | TransformDone net_outcome

end
