(* ===== verification/Render.thy ===== *)
theory Render
  imports App_State
begin

text \<open>
  The JSX of \<open>App\<close> (App.tsx lines 118-254) as a function of the state: which area is
  shown, the health indicator, the preview and file information, which buttons are
  enabled and how they are labelled, and the status message. Markup, classes and icons
  are left out.
\<close>

record view =
  v_health :: "bool option"
  v_upload_area :: bool
  v_dragging :: bool
  v_preview :: "string option"
  v_format_enabled :: bool
  v_convert_enabled :: bool
  v_download :: "target_format option"
  v_message :: "js_value option"
  v_health_text :: "string option"
  v_file_info :: "(string \<times> string option \<times> string) option"
  v_convert_label :: "string option"
  v_download_label :: "string option"

text \<open>
  The JSX (lines 118-254): the health indicator (127-141), the upload area when no file
  is selected (145-164), otherwise the panel with preview (169-173), file name, size and
  type (174-178), format buttons (184-197), convert button (201-217), download button
  (219-224) and status message (231-243). The preview is rendered only for a truthy
  \<open>previewUrl\<close>, so not for the empty string.
\<close>

definition health_text :: "bool option \<Rightarrow> string option" where
  "health_text h =
     (case h of None \<Rightarrow> None | Some True \<Rightarrow> Some ''Backend Connected'' | Some False \<Rightarrow> Some ''Backend Offline'')"

definition download_label :: "target_format \<Rightarrow> string" where
  "download_label fmt = ''Download '' @ to_upper_ascii (format_str fmt)"

definition file_info :: "js_file \<Rightarrow> string \<times> string option \<times> string" where
  "file_info f = (file_name f, size_kb_text (length (file_bytes f)), file_type f)"

definition render :: "app_state \<Rightarrow> view" where
  "render st =
     (case selectedFile st of
        None \<Rightarrow>
          \<lparr>v_health = isBackendHealthy st, v_upload_area = True, v_dragging = isDragging st,
           v_preview = None, v_format_enabled = False, v_convert_enabled = False,
           v_download = None, v_message = None, v_health_text = health_text (isBackendHealthy st),
           v_file_info = None, v_convert_label = None, v_download_label = None\<rparr>
      | Some f \<Rightarrow>
          \<lparr>v_health = isBackendHealthy st, v_upload_area = False, v_dragging = False,
           v_preview = (case previewUrl st of Some u \<Rightarrow> if u = [] then None else Some u | None \<Rightarrow> None),
           v_format_enabled = (status st \<noteq> Converting),
           v_convert_enabled = (status st \<noteq> Converting \<and> isBackendHealthy st = Some True),
           v_download = (if status st = Success \<and> convertedBlob st \<noteq> None then Some (targetFormat st) else None),
           v_message =
             (if status st = Success then Some (JsStr ''Conversion successful!'')
              else if status st = Error then
                Some (if errorMessage st = JsStr '''' then JsStr ''Conversion failed'' else errorMessage st)
              else None),
           v_health_text = health_text (isBackendHealthy st),
           v_file_info = Some (file_info f),
           v_convert_label = Some (if status st = Converting then ''Converting...'' else ''Convert Image''),
           v_download_label =
             (if status st = Success \<and> convertedBlob st \<noteq> None then Some (download_label (targetFormat st))
              else None)\<rparr>)"

text \<open>
  Line 241 renders \<open>{errorMessage || 'Conversion failed'}\<close> as a child of a
  \<open>span\<close>. A string is rendered as text; a \<open>Blob\<close> (the error response's body,
  which is truthy even when empty) is an object, on which React throws "Objects are not
  valid as a React child". The page has no error boundary, so the throw unmounts the
  whole tree: \<open>render_throws\<close> is the state in which the render of line 241 throws.
\<close>

definition render_throws :: "app_state \<Rightarrow> bool" where
  "render_throws st = (case v_message (render st) of Some (JsBlob _) \<Rightarrow> True | _ \<Rightarrow> False)"

lemma upload_area_no_file: "v_upload_area (render st) \<Longrightarrow> selectedFile st = None"
  by (simp add: render_def split: option.splits)

lemma render_throws_iff [simp]:
  "render_throws st \<longleftrightarrow>
     selectedFile st \<noteq> None \<and> status st = Error \<and> (\<exists>b. errorMessage st = JsBlob b)"
  by (auto simp: render_throws_def render_def split: option.split js_value.split)

end
