(* ===== verification/Session.thy ===== *)
theory Session
  imports Render
begin

text \<open>
  The conversion session controller, the component \<open>App\<close> of
  src/React_Frontend/src/App.tsx. Its React state (lines 9-17) is the record
  \<open>app_state\<close> of theory \<open>App_State\<close>, the JSX is \<open>render\<close> of theory
  \<open>Render\<close>; each handler is a function on it (lines 25-116). A handler that starts
  an asynchronous operation (\<open>fileApi.checkHealth\<close>, \<open>FileReader.readAsDataURL\<close>,
  \<open>fileApi.transformImage\<close>) returns the operation as well, and the code after its
  \<open>await\<close> or in its callback is a separate function applied when the operation
  completes. The page as a whole is the record \<open>world\<close>: the React state, the list of
  operations in flight, the files the browser has saved and the object URLs not yet
  revoked. \<open>render\<close> is the JSX of lines 118-254 reduced to what decides behaviour
  (which area is shown, which buttons are enabled, which message is shown), and
  \<open>ui_allows\<close> says which user events the rendered page can produce.
  \<open>step\<close> is one event: a user event the page allows, or the completion of the
  operation at a given position of the list, in any order, on a page that is still
  mounted: a render that throws unmounts it. \<open>reachable\<close> is the set
  of pages reachable from the first render, whose mount effect (lines 21-23) starts
  the health check.
\<close>

subsection \<open>Handlers\<close>

text \<open>\<open>checkBackendHealth\<close> (lines 25-28), after its \<open>await\<close>.\<close>

definition health_done :: "net_outcome \<Rightarrow> app_state \<Rightarrow> app_state" where
  "health_done out st = st\<lparr>isBackendHealthy := Some (check_health out)\<rparr>"

text \<open>
  \<open>handleFileSelect\<close> (lines 30-48): the single acceptance check, then the preview read
  it starts; \<open>read_done\<close> is \<open>reader.onload\<close> (lines 44-46). There is no
  \<open>onerror\<close> handler, so a failed read changes nothing.
\<close>

definition handle_file_select :: "js_file \<Rightarrow> app_state \<Rightarrow> app_state \<times> async_op list" where
  "handle_file_select f st =
     (if \<not> starts_with (file_type f) ''image/'' then
        (st\<lparr>errorMessage := JsStr ''Please select an image file'', status := Error\<rparr>, [])
      else
        (st\<lparr>selectedFile := Some f, status := Idle, errorMessage := JsStr '''', convertedBlob := None\<rparr>,
         [ReadPreview f]))"

definition read_done :: "string \<Rightarrow> app_state \<Rightarrow> app_state" where
  "read_done url st = st\<lparr>previewUrl := Some url\<rparr>"

text \<open>\<open>handleFileInputChange\<close>, \<open>handleDragOver\<close>, \<open>handleDragLeave\<close>, \<open>handleDrop\<close> (lines 50-75).\<close>

definition handle_file_input_change :: "js_file option \<Rightarrow> app_state \<Rightarrow> app_state \<times> async_op list" where
  "handle_file_input_change fo st = (case fo of None \<Rightarrow> (st, []) | Some f \<Rightarrow> handle_file_select f st)"

definition handle_drag_over :: "app_state \<Rightarrow> app_state" where
  "handle_drag_over st = st\<lparr>isDragging := True\<rparr>"

definition handle_drag_leave :: "app_state \<Rightarrow> app_state" where
  "handle_drag_leave st = st\<lparr>isDragging := False\<rparr>"

definition handle_drop :: "js_file option \<Rightarrow> app_state \<Rightarrow> app_state \<times> async_op list" where
  "handle_drop fo st =
     (let st' = st\<lparr>isDragging := False\<rparr> in
      case fo of None \<Rightarrow> (st', []) | Some f \<Rightarrow> handle_file_select f st')"

text \<open>
  \<open>handleConvert\<close> (lines 77-92): the part before the \<open>await\<close>, and
  \<open>convert_done\<close>, the part after it, with the message expression of line 90.
\<close>

definition handle_convert :: "app_state \<Rightarrow> app_state \<times> async_op list" where
  "handle_convert st =
     (case selectedFile st of
        None \<Rightarrow> (st, [])
      | Some f \<Rightarrow> (st\<lparr>status := Converting, errorMessage := JsStr ''''\<rparr>, [Transform f (targetFormat st)]))"

definition conversion_error_message :: "axios_error \<Rightarrow> js_value" where
  "conversion_error_message e =
     (case err_response e of
        Some r \<Rightarrow> JsBlob (resp_body r)
      | None \<Rightarrow> if err_message e \<noteq> [] then JsStr (err_message e) else JsStr ''Conversion failed'')"

definition convert_done :: "string \<Rightarrow> net_outcome \<Rightarrow> app_state \<Rightarrow> app_state" where
  "convert_done fmt out st =
     (case transform_image fmt out of
        Inr result \<Rightarrow>
          st\<lparr>convertedBlob := Some (tr_data result), convertedFilename := tr_filename result,
             status := Success\<rparr>
      | Inl e \<Rightarrow> st\<lparr>status := Error, errorMessage := conversion_error_message e\<rparr>)"

text \<open>
  \<open>handleReset\<close> (lines 107-116). The input element's value reset acts on an element
  that is not mounted while the conversion panel is shown and is not modelled.
\<close>

definition handle_reset :: "app_state \<Rightarrow> app_state" where
  "handle_reset st =
     st\<lparr>selectedFile := None, previewUrl := None, status := Idle, errorMessage := JsStr '''',
        convertedBlob := None\<rparr>"

subsection \<open>The page: pending operations, saved files, object URLs\<close>

record world =
  app :: app_state
  pending :: "async_op list"
  saved :: "(string \<times> blob) list"
  live_urls :: "nat list"
  next_url :: nat

text \<open>
  \<open>handleDownload\<close> (lines 94-105): create an object URL, save the blob under
  \<open>convertedFilename\<close> by clicking a temporary anchor, revoke the URL.
\<close>

definition handle_download :: "world \<Rightarrow> world" where
  "handle_download w =
     (case convertedBlob (app w) of
        None \<Rightarrow> w
      | Some b \<Rightarrow>
          (let url = next_url w;
               w1 = w\<lparr>live_urls := url # live_urls w, next_url := Suc url\<rparr>;
               w2 = w1\<lparr>saved := saved w1 @ [(convertedFilename (app w1), b)]\<rparr>
           in w2\<lparr>live_urls := removeAll url (live_urls w2)\<rparr>))"

definition init_world :: world where
  "init_world = \<lparr>app = init_app, pending = [HealthCheck], saved = [], live_urls = [], next_url = 0\<rparr>"

subsection \<open>Events and the step function\<close>

datatype event =
    PickFile "js_file option"
  | DragOverArea
  | DragLeaveArea
  | DropOnArea "js_file option"
  | ClickFormat target_format
  | ClickConvert
  | ClickDownload
  | ClickReset
  | Complete nat completion

text \<open>The event bindings of the JSX: which events the rendered page can produce.\<close>

fun ui_allows :: "view \<Rightarrow> event \<Rightarrow> bool" where
  "ui_allows v (PickFile _) = v_upload_area v"
| "ui_allows v DragOverArea = v_upload_area v"
| "ui_allows v DragLeaveArea = v_upload_area v"
| "ui_allows v (DropOnArea _) = v_upload_area v"
| "ui_allows v (ClickFormat _) = (\<not> v_upload_area v \<and> v_format_enabled v)"
| "ui_allows v ClickConvert = (\<not> v_upload_area v \<and> v_convert_enabled v)"
| "ui_allows v ClickDownload = (v_download v \<noteq> None)"
| "ui_allows v ClickReset = (\<not> v_upload_area v)"
| "ui_allows v (Complete _ _) = True"

definition spawn :: "world \<Rightarrow> app_state \<times> async_op list \<Rightarrow> world" where
  "spawn w r = w\<lparr>app := fst r, pending := pending w @ snd r\<rparr>"

fun dispatch :: "world \<Rightarrow> event \<Rightarrow> world" where
  "dispatch w (PickFile fo) = spawn w (handle_file_input_change fo (app w))"
| "dispatch w DragOverArea = w\<lparr>app := handle_drag_over (app w)\<rparr>"
| "dispatch w DragLeaveArea = w\<lparr>app := handle_drag_leave (app w)\<rparr>"
| "dispatch w (DropOnArea fo) = spawn w (handle_drop fo (app w))"
| "dispatch w (ClickFormat fmt) = w\<lparr>app := (app w)\<lparr>targetFormat := fmt\<rparr>\<rparr>"
| "dispatch w ClickConvert = spawn w (handle_convert (app w))"
| "dispatch w ClickDownload = handle_download w"
| "dispatch w ClickReset = w\<lparr>app := handle_reset (app w)\<rparr>"
| "dispatch w (Complete _ _) = w"

fun complete_op :: "async_op \<Rightarrow> completion \<Rightarrow> app_state \<Rightarrow> app_state option" where
  "complete_op HealthCheck (HealthDone out) st = Some (health_done out st)"
| "complete_op (ReadPreview f) ReadLoad st = Some (read_done (read_as_data_url f) st)"
| "complete_op (ReadPreview f) ReadError st = Some st"
| "complete_op (Transform f fmt) (TransformDone out) st = Some (convert_done (format_str fmt) out st)"
| "complete_op _ _ _ = None"

text \<open>
  A page whose render has thrown (\<open>render_throws\<close>, line 241) has been unmounted by
  React: nothing is displayed, no handler is bound, and the operations still in flight
  settle into \<open>setState\<close> calls that React ignores. Such a page takes no step.
\<close>

fun step :: "world \<Rightarrow> event \<Rightarrow> world option" where
  "step w (Complete i c) =
     (if \<not> render_throws (app w) \<and> i < length (pending w) then
        map_option (\<lambda>st. w\<lparr>app := st, pending := drop_nth i (pending w)\<rparr>)
          (complete_op (pending w ! i) c (app w))
      else None)"
| "step w e = (if \<not> render_throws (app w) \<and> ui_allows (render (app w)) e then Some (dispatch w e) else None)"

fun run :: "world \<Rightarrow> event list \<Rightarrow> world option" where
  "run w [] = Some w"
| "run w (e # es) = (case step w e of None \<Rightarrow> None | Some w' \<Rightarrow> run w' es)"

inductive reachable :: "world \<Rightarrow> bool" where
  init: "reachable init_world"
| step: "reachable w \<Longrightarrow> step w e = Some w' \<Longrightarrow> reachable w'"


subsection \<open>Example inputs\<close>

text \<open>The inputs of the spec's scenarios, used by the witnesses.\<close>

definition photo_jpg :: js_file where
  "photo_jpg = \<lparr>file_name = ''photo.jpg'', file_type = ''image/jpeg'', file_bytes = replicate 2048 0\<rparr>"

definition notes_txt :: js_file where
  "notes_txt = \<lparr>file_name = ''notes.txt'', file_type = ''text/plain'', file_bytes = [104, 105]\<rparr>"

definition shot_png :: js_file where
  "shot_png = \<lparr>file_name = ''shot.png'', file_type = ''image/png'', file_bytes = [1, 2, 3]\<rparr>"

definition health_ok :: net_outcome where
  "health_ok = NetResp \<lparr>resp_status = 200, resp_headers = Map.empty, resp_body = Blob '''' []\<rparr>"

definition photo_png_response :: http_response where
  "photo_png_response =
     \<lparr>resp_status = 200,
      resp_headers = [''content-disposition'' \<mapsto> ''attachment; filename=\"photo.png\"''],
      resp_body = Blob ''image/png'' [137, 80, 78, 71]\<rparr>"

definition server_error :: http_response where
  "server_error = \<lparr>resp_status = 500, resp_headers = Map.empty, resp_body = Blob ''text/plain'' [98, 97, 100]\<rparr>"

subsection \<open>Invariants of the page\<close>

definition result_inv :: "app_state \<Rightarrow> bool" where
  "result_inv st \<longleftrightarrow> (status st = Success \<longrightarrow> convertedBlob st \<noteq> None)"

definition converting_inv :: "world \<Rightarrow> bool" where
  "converting_inv w \<longleftrightarrow>
     (status (app w) = Converting \<longrightarrow> (\<exists>f fmt. Transform f fmt \<in> set (pending w)))"

definition health_inv :: "world \<Rightarrow> bool" where
  "health_inv w \<longleftrightarrow>
     count (mset (pending w)) HealthCheck = (if isBackendHealthy (app w) = None then 1 else 0)"

text \<open>
  The preview shown is the data URL of an image file, and every preview read in flight
  reads an image file.
\<close>

definition image_preview :: "string option \<Rightarrow> bool" where
  "image_preview p \<longleftrightarrow>
     (\<forall>u. p = Some u \<longrightarrow> (\<exists>f. starts_with (file_type f) ''image/'' \<and> u = read_as_data_url f))"

definition preview_inv :: "world \<Rightarrow> bool" where
  "preview_inv w \<longleftrightarrow> image_preview (previewUrl (app w))
     \<and> (\<forall>f. ReadPreview f \<in> set (pending w) \<longrightarrow> starts_with (file_type f) ''image/'')"

text \<open>
  A conversion in status success has a name for the file to save, and every saved file
  has a non-empty name (an empty \<open>download\<close> attribute would let the browser choose).
\<close>

definition names_inv :: "world \<Rightarrow> bool" where
  "names_inv w \<longleftrightarrow> (status (app w) = Success \<longrightarrow> convertedFilename (app w) \<noteq> [])
     \<and> (\<forall>x\<in>set (saved w). fst x \<noteq> [])"

text \<open>Well-formedness of a page: the conjunction of its invariants.\<close>

definition wf_world :: "world \<Rightarrow> bool" where
  "wf_world w \<longleftrightarrow> result_inv (app w) \<and> converting_inv w \<and> health_inv w \<and> preview_inv w \<and> names_inv w"

declare health_done_def [handler_simps] handle_file_select_def [handler_simps]
  read_done_def [handler_simps] handle_file_input_change_def [handler_simps]
  handle_drag_over_def [handler_simps] handle_drag_leave_def [handler_simps]
  handle_drop_def [handler_simps] handle_convert_def [handler_simps]
  convert_done_def [handler_simps] conversion_error_message_def [handler_simps]
  handle_reset_def [handler_simps] spawn_def [handler_simps]
  Let_def [handler_simps]

subsection \<open>Shape of a step\<close>

lemma step_SomeE:
  assumes "step w e = Some w'"
  obtains (user_event) "ui_allows (render (app w)) e" "w' = dispatch w e" "\<forall>i c. e \<noteq> Complete i c"
        "\<not> render_throws (app w)"
    | (completion) i c st where "e = Complete i c" "i < length (pending w)"
        "complete_op (pending w ! i) c (app w) = Some st"
        "w' = w\<lparr>app := st, pending := drop_nth i (pending w)\<rparr>" "\<not> render_throws (app w)"
  using assms by (cases e) (auto split: if_splits)

lemma throws_no_step: "render_throws (app w) \<Longrightarrow> step w e = None"
  by (cases e) (simp_all del: render_throws_iff)

lemma handle_download_app [simp]: "app (handle_download w) = app w"
  by (simp add: handle_download_def Let_def split: option.split)

lemma handle_download_pending [simp]: "pending (handle_download w) = pending w"
  by (simp add: handle_download_def Let_def split: option.split)

lemma convert_done_status: "status (convert_done fmt out st) \<in> {Success, Error}"
  by (simp add: convert_done_def split: sum.split)

lemma in_set_drop_nth:
  assumes "x \<in> set xs" and "x \<noteq> xs ! i" and "i < length xs"
  shows "x \<in> set (drop_nth i xs)"
proof -
  have "count (mset (drop_nth i xs)) x = count (mset xs) x"
    using assms(2,3) by (simp add: mset_drop_nth)
  with assms(1) show ?thesis
    by (metis count_mset_0_iff)
qed

subsection \<open>Invariants\<close>

lemma dispatch_result_inv: "result_inv (app w) \<Longrightarrow> result_inv (app (dispatch w e))"
  by (cases e) (auto simp: result_inv_def handler_simps split: option.split)

lemma complete_op_result_inv:
  "complete_op op c st = Some st' \<Longrightarrow> result_inv st \<Longrightarrow> result_inv st'"
  by (induction op c st rule: complete_op.induct)
     (auto simp: result_inv_def handler_simps split: sum.split)

lemma step_result_inv: "step w e = Some w' \<Longrightarrow> result_inv (app w) \<Longrightarrow> result_inv (app w')"
  by (erule step_SomeE) (auto intro: dispatch_result_inv complete_op_result_inv)

lemma reachable_result_inv: "reachable w \<Longrightarrow> result_inv (app w)"
proof (induction rule: reachable.induct)
  case init
  then show ?case by (simp add: result_inv_def init_world_def init_app_def)
next
  case (step w e w')
  then show ?case by (blast intro: step_result_inv)
qed


lemma complete_op_status:
  assumes "complete_op op c st = Some st'"
  shows "(\<exists>f fmt. op = Transform f fmt) \<and> status st' \<in> {Success, Error}
         \<or> (\<forall>f fmt. op \<noteq> Transform f fmt) \<and> status st' = status st"
  using assms
  by (induction op c st rule: complete_op.induct) (auto simp: handler_simps split: sum.split)

lemma dispatch_converting_inv: "converting_inv w \<Longrightarrow> converting_inv (dispatch w e)"
  by (cases e) (auto simp: converting_inv_def handler_simps split: option.split)

lemma step_converting_inv:
  assumes "step w e = Some w'" and "converting_inv w"
  shows "converting_inv w'"
  using assms(1)
proof (cases rule: step_SomeE)
  case user_event
  then show ?thesis using assms(2) dispatch_converting_inv by simp
next
  case (completion i c st)
  show ?thesis
  proof (cases "\<exists>f fmt. pending w ! i = Transform f fmt")
    case True
    with completion complete_op_status [of "pending w ! i" c "app w" st] show ?thesis
      by (auto simp: converting_inv_def)
  next
    case False
    with completion complete_op_status [of "pending w ! i" c "app w" st]
    have "status st = status (app w)" by auto
    have "Transform f fmt \<in> set (drop_nth i (pending w))"
      if "Transform f fmt \<in> set (pending w)" for f fmt
      using that False completion(2) by (metis in_set_drop_nth)
    with completion assms(2) \<open>status st = status (app w)\<close> show ?thesis
      unfolding converting_inv_def by auto
  qed
qed

lemma reachable_converting_inv: "reachable w \<Longrightarrow> converting_inv w"
proof (induction rule: reachable.induct)
  case init
  then show ?case by (simp add: converting_inv_def init_world_def init_app_def)
next
  case (step w e w')
  then show ?case by (blast intro: step_converting_inv)
qed

lemma convert_done_preview [simp]: "previewUrl (convert_done fmt out st) = previewUrl st"
  by (simp add: convert_done_def split: sum.split)

lemma dispatch_preview_inv: "preview_inv w \<Longrightarrow> preview_inv (dispatch w e)"
  by (cases e) (auto simp: preview_inv_def image_preview_def handler_simps split: option.split)

lemma complete_op_image_preview:
  assumes "complete_op op c st = Some st'" and "image_preview (previewUrl st)"
    and "\<forall>f. op = ReadPreview f \<longrightarrow> starts_with (file_type f) ''image/''"
  shows "image_preview (previewUrl st')"
  using assms
  by (induction op c st rule: complete_op.induct)
     (auto simp: image_preview_def read_done_def health_done_def)

lemma step_preview_inv:
  assumes "step w e = Some w'" and "preview_inv w"
  shows "preview_inv w'"
  using assms(1)
proof (cases rule: step_SomeE)
  case user_event
  then show ?thesis using assms(2) dispatch_preview_inv by simp
next
  case (completion i c st)
  then have "pending w ! i \<in> set (pending w)" by simp
  with assms(2) have "\<forall>f. pending w ! i = ReadPreview f \<longrightarrow> starts_with (file_type f) ''image/''"
    by (auto simp: preview_inv_def)
  with completion(3) assms(2) have "image_preview (previewUrl st)"
    by (auto simp: preview_inv_def intro: complete_op_image_preview)
  with completion assms(2) show ?thesis
    using set_drop_nth_subset [of i "pending w"] by (auto simp: preview_inv_def)
qed

lemma reachable_preview_inv: "reachable w \<Longrightarrow> preview_inv w"
proof (induction rule: reachable.induct)
  case init
  then show ?case by (simp add: preview_inv_def image_preview_def init_world_def init_app_def)
next
  case (step w e w')
  then show ?case by (blast intro: step_preview_inv)
qed

lemma convert_done_names:
  "status (convert_done fmt out st) = Success \<Longrightarrow> convertedFilename (convert_done fmt out st) \<noteq> []
   \<or> status st = Success \<and> convertedFilename (convert_done fmt out st) = convertedFilename st"
  by (auto simp: convert_done_def transform_image_def derive_filename_not_Nil split: sum.split)

lemma complete_op_names:
  assumes "complete_op op c st = Some st'" and "status st = Success \<longrightarrow> convertedFilename st \<noteq> []"
  shows "status st' = Success \<longrightarrow> convertedFilename st' \<noteq> []"
  using assms convert_done_names
  by (induction op c st rule: complete_op.induct) (auto simp: read_done_def health_done_def)

lemma step_names_inv:
  assumes "step w e = Some w'" and "names_inv w"
  shows "names_inv w'"
  using assms(1)
proof (cases rule: step_SomeE)
  case user_event
  then show ?thesis using assms(2)
    by (cases e) (auto simp: names_inv_def handler_simps render_def handle_download_def
        split: option.splits if_splits)
next
  case (completion i c st)
  then show ?thesis using assms(2) complete_op_names [OF completion(3)]
    by (simp add: names_inv_def)
qed

lemma init_wf_world: "wf_world init_world"
  by (simp add: wf_world_def result_inv_def converting_inv_def health_inv_def preview_inv_def
      image_preview_def names_inv_def init_world_def init_app_def)

lemma reachable_names_inv: "reachable w \<Longrightarrow> names_inv w"
proof (induction rule: reachable.induct)
  case init
  then show ?case using init_wf_world by (simp add: wf_world_def)
next
  case (step w e w')
  then show ?case by (blast intro: step_names_inv)
qed

lemma convert_from_upload:
  assumes "v_upload_area (render (app w))" and "isBackendHealthy (app w) = Some True"
    and "starts_with (file_type f) ''image/''" and "validate_status (resp_status r)"
  shows "\<exists>w'. run w [PickFile (Some f), ClickConvert,
      Complete (Suc (length (pending w))) (TransformDone (NetResp r))] = Some w'
    \<and> status (app w') = Success \<and> selectedFile (app w') = Some f
    \<and> convertedBlob (app w') = Some (resp_body r)"
proof -
  have "selectedFile (app w) = None" using assms(1) by (simp add: render_def split: option.splits)
  with assms(2-4) show ?thesis
    by (simp add: handler_simps api_simps render_def nth_append del: step.simps(1))
       (simp add: handler_simps api_simps nth_append)
qed

lemma run_reachable: "run w es = Some w' \<Longrightarrow> reachable w \<Longrightarrow> reachable w'"
proof (induction es arbitrary: w)
  case Nil
  then show ?case by simp
next
  case (Cons e es)
  then obtain w1 where "step w e = Some w1" and "run w1 es = Some w'"
    by (auto split: option.splits)
  with Cons show ?case by (blast intro: reachable.step)
qed

lemma run_init_reachable: "run init_world es = Some w \<Longrightarrow> reachable w"
  by (blast intro: run_reachable reachable.init)

lemma spawned_no_health:
  "HealthCheck \<notin> set (snd (handle_file_input_change fo st))"
  "HealthCheck \<notin> set (snd (handle_drop fo st))"
  "HealthCheck \<notin> set (snd (handle_convert st))"
  by (auto simp: handler_simps split: option.split)

lemma dispatch_health:
  "isBackendHealthy (app (dispatch w e)) = isBackendHealthy (app w)"
  "count (mset (pending (dispatch w e))) HealthCheck = count (mset (pending w)) HealthCheck"
  using spawned_no_health
  by (cases e; auto simp: handler_simps count_eq_zero_iff split: option.split)+

lemma complete_op_health:
  assumes "complete_op op c st = Some st'" and "op \<noteq> HealthCheck"
  shows "isBackendHealthy st' = isBackendHealthy st"
  using assms
  by (induction op c st rule: complete_op.induct) (auto simp: handler_simps split: sum.split)

lemma step_health_inv:
  assumes "step w e = Some w'" and "health_inv w"
  shows "health_inv w'"
  using assms(1)
proof (cases rule: step_SomeE)
  case user_event
  then show ?thesis using assms(2) by (simp add: health_inv_def dispatch_health)
next
  case (completion i c st)
  show ?thesis
  proof (cases "pending w ! i = HealthCheck")
    case True
    with completion have "count (mset (pending w)) HealthCheck \<noteq> 0"
      by (metis count_eq_zero_iff nth_mem set_mset_mset)
    with assms(2) have "isBackendHealthy (app w) = None" by (auto simp: health_inv_def split: if_splits)
    moreover from True completion have "isBackendHealthy st \<noteq> None"
      by (cases c) (auto simp: handler_simps)
    ultimately show ?thesis
      using True completion assms(2) by (simp add: health_inv_def mset_drop_nth)
  next
    case False
    with completion complete_op_health have "isBackendHealthy st = isBackendHealthy (app w)"
      by blast
    with False completion assms(2) show ?thesis
      by (simp add: health_inv_def mset_drop_nth)
  qed
qed

lemma reachable_health_inv: "reachable w \<Longrightarrow> health_inv w"
proof (induction rule: reachable.induct)
  case init
  then show ?case by (simp add: health_inv_def init_world_def init_app_def)
next
  case (step w e w')
  then show ?case by (blast intro: step_health_inv)
qed

lemma file_type_examples [simp]:
  "file_type photo_jpg = ''image/jpeg''" "file_type notes_txt = ''text/plain''"
  "file_type shot_png = ''image/png''"
  by (simp_all add: photo_jpg_def notes_txt_def shot_png_def)

lemma example_files_distinct [simp]: "shot_png \<noteq> photo_jpg" "photo_jpg \<noteq> shot_png"
  by (simp_all add: photo_jpg_def shot_png_def)

lemmas eval_simps = handler_simps api_simps init_world_def init_app_def render_def drop_nth_def
  starts_with_def derive_filename_def match_at_def filename_key_def greedy_group_def
  cut_last_quote_def is_line_terminator_def handle_download_def health_ok_def
  photo_png_response_def server_error_def download_label_def to_upper_ascii_def char_of_iff

lemma dispatch_live_urls: "live_urls w = [] \<Longrightarrow> live_urls (dispatch w e) = []"
  by (cases e) (auto simp: handler_simps handle_download_def Let_def split: option.split)

lemma reachable_live_urls: "reachable w \<Longrightarrow> live_urls w = []"
proof (induction rule: reachable.induct)
  case init
  then show ?case by (simp add: init_world_def)
next
  case (step w e w')
  from step.hyps(2) show ?case
    by (cases rule: step_SomeE) (use step.IH dispatch_live_urls in auto)
qed

lemma run_snoc: "run w0 es = Some w \<Longrightarrow> step w e = Some w' \<Longrightarrow> run w0 (es @ [e]) = Some w'"
  by (induction es arbitrary: w0) (auto split: option.splits)

text \<open>
  C1: in every reachable page, a status of \<open>Success\<close> comes with a converted result, so
  the download button is shown whenever the success message is.
\<close>

theorem success_has_result:
  assumes "reachable w" and "status (app w) = Success"
  shows "convertedBlob (app w) \<noteq> None"
  using reachable_result_inv [OF assms(1)] assms(2) by (simp add: result_inv_def)

theorem success_has_result_witness:
  "\<exists>w. reachable w \<and> status (app w) = Success \<and> convertedBlob (app w) \<noteq> None"
proof -
  have "\<exists>w. run init_world [Complete 0 (HealthDone health_ok), PickFile (Some photo_jpg), ClickConvert,
        Complete 1 (TransformDone (NetResp photo_png_response))] = Some w \<and> status (app w) = Success"
    by (simp add: eval_simps)
  then obtain w where "run init_world [Complete 0 (HealthDone health_ok), PickFile (Some photo_jpg),
        ClickConvert, Complete 1 (TransformDone (NetResp photo_png_response))] = Some w"
      and s: "status (app w) = Success" by blast
  then have r: "reachable w" by (blast intro: run_init_reachable)
  with s success_has_result [OF r s] show ?thesis by blast
qed

text \<open>
  C2: the converting state is never stuck: in every reachable page whose status is
  \<open>Converting\<close> some conversion request is in flight, and every outcome of it ends
  the converting state.
\<close>

theorem converting_can_finish:
  assumes "reachable w" and "status (app w) = Converting"
  shows "\<exists>i. \<forall>out. \<exists>w'. step w (Complete i (TransformDone out)) = Some w' \<and> status (app w') \<noteq> Converting"
proof -
  obtain f fmt where "Transform f fmt \<in> set (pending w)"
    using reachable_converting_inv [OF assms(1)] assms(2) by (auto simp: converting_inv_def)
  then obtain i where i: "i < length (pending w)" "pending w ! i = Transform f fmt"
    by (auto simp: in_set_conv_nth)
  have "status (convert_done (format_str fmt) out (app w)) \<noteq> Converting" for out
    using convert_done_status [of "format_str fmt" out "app w"] by auto
  with i assms(2) show ?thesis by (intro exI [of _ i]) auto
qed

theorem converting_can_finish_witness:
  "\<exists>w. reachable w \<and> status (app w) = Converting \<and>
      (\<exists>i. \<forall>out. \<exists>w'. step w (Complete i (TransformDone out)) = Some w' \<and> status (app w') \<noteq> Converting)"
proof -
  have "\<exists>w. run init_world [Complete 0 (HealthDone health_ok), PickFile (Some photo_jpg), ClickConvert]
        = Some w \<and> status (app w) = Converting"
    by (simp add: eval_simps)
  then obtain w where "run init_world [Complete 0 (HealthDone health_ok), PickFile (Some photo_jpg),
        ClickConvert] = Some w" and s: "status (app w) = Converting" by blast
  then have r: "reachable w" by (blast intro: run_init_reachable)
  with s converting_can_finish [OF r s] show ?thesis by blast
qed

text \<open>
  C7: the backend health is set once: after the health check has reported, no event of a
  reachable page changes the health flag (there is no re-check).
\<close>

theorem health_set_once:
  assumes "reachable w" and "step w e = Some w'" and "isBackendHealthy (app w) \<noteq> None"
  shows "isBackendHealthy (app w') = isBackendHealthy (app w)"
proof -
  have "HealthCheck \<notin> set (pending w)"
    using reachable_health_inv [OF assms(1)] assms(3) by (simp add: health_inv_def count_eq_zero_iff)
  with assms(2) show ?thesis
  proof (cases rule: step_SomeE)
    case user_event
    then show ?thesis by (simp add: dispatch_health)
  next
    case (completion i c st)
    then have "pending w ! i \<noteq> HealthCheck"
      using \<open>HealthCheck \<notin> set (pending w)\<close> by (metis nth_mem)
    with completion complete_op_health show ?thesis by auto
  qed
qed

theorem health_set_once_witness:
  "\<exists>w w'. reachable w \<and> step w ClickReset = Some w' \<and> isBackendHealthy (app w) \<noteq> None
     \<and> isBackendHealthy (app w') = isBackendHealthy (app w)"
proof -
  have "\<exists>w. run init_world [Complete 0 (HealthDone health_ok), PickFile (Some photo_jpg)] = Some w
        \<and> isBackendHealthy (app w) = Some True \<and> step w ClickReset \<noteq> None"
    by (simp add: eval_simps)
  then obtain w w' where "run init_world [Complete 0 (HealthDone health_ok), PickFile (Some photo_jpg)]
        = Some w" and h: "isBackendHealthy (app w) = Some True" and st: "step w ClickReset = Some w'"
    by blast
  then have r: "reachable w" by (blast intro: run_init_reachable)
  have "isBackendHealthy (app w') = isBackendHealthy (app w)"
    using h by (intro health_set_once [OF r st]) simp
  with r h st show ?thesis by blast
qed

text \<open>
  C3: a non-image file picked in the upload area is rejected: the status becomes
  \<open>Error\<close> with the message ''Please select an image file'', no file is selected and no
  operation is started.
\<close>

theorem non_image_rejected:
  assumes "\<not> starts_with (file_type f) ''image/''" and "step w (PickFile (Some f)) = Some w'"
  shows "status (app w') = Error \<and> errorMessage (app w') = JsStr ''Please select an image file''
         \<and> selectedFile (app w') = None \<and> pending w' = pending w"
  using assms
  by (auto simp: handler_simps render_def split: if_splits option.splits)

theorem non_image_rejected_witness:
  "\<exists>w'. step init_world (PickFile (Some notes_txt)) = Some w' \<and> status (app w') = Error
     \<and> errorMessage (app w') = JsStr ''Please select an image file'' \<and> selectedFile (app w') = None"
proof -
  have h: "\<not> starts_with (file_type notes_txt) ''image/''" by (simp add: starts_with_def)
  have "\<exists>w'. step init_world (PickFile (Some notes_txt)) = Some w'"
    by (simp add: eval_simps)
  then obtain w' where st: "step init_world (PickFile (Some notes_txt)) = Some w'" by blast
  with non_image_rejected [OF h st] show ?thesis by blast
qed

text \<open>
  C4: an image file picked in the upload area becomes the selected file: the status is
  \<open>Idle\<close>, the error message and the converted result are cleared, and the preview read
  of that file is started.
\<close>

theorem image_accepted:
  assumes "starts_with (file_type f) ''image/''" and "step w (PickFile (Some f)) = Some w'"
  shows "selectedFile (app w') = Some f \<and> status (app w') = Idle \<and> errorMessage (app w') = JsStr ''''
         \<and> convertedBlob (app w') = None \<and> pending w' = pending w @ [ReadPreview f]"
  using assms
  by (auto simp: handler_simps split: if_splits)

theorem image_accepted_witness:
  "\<exists>w'. step init_world (PickFile (Some photo_jpg)) = Some w'
     \<and> selectedFile (app w') = Some photo_jpg \<and> status (app w') = Idle"
proof -
  have h: "starts_with (file_type photo_jpg) ''image/''" by (simp add: starts_with_def)
  have "\<exists>w'. step init_world (PickFile (Some photo_jpg)) = Some w'"
    by (simp add: eval_simps)
  then obtain w' where st: "step init_world (PickFile (Some photo_jpg)) = Some w'" by blast
  with image_accepted [OF h st] show ?thesis by blast
qed

text \<open>
  C5: dropping a file on the upload area has the same effect as picking it with the file
  input, except that the drag highlight is switched off: both go through the one
  acceptance check.
\<close>

theorem drop_same_as_pick:
  "step w (DropOnArea fo) = map_option (\<lambda>w'. w'\<lparr>app := (app w')\<lparr>isDragging := False\<rparr>\<rparr>) (step w (PickFile fo))"
  by (auto simp: handler_simps split: option.split)

text \<open>
  C6: the convert action is possible only when the health check has reported a healthy
  backend, no conversion is running and a file is selected; it sets the status to
  \<open>Converting\<close> and sends the selected file with the current target format.
\<close>

theorem convert_requires_health:
  assumes "step w ClickConvert = Some w'"
  shows "isBackendHealthy (app w) = Some True \<and> status (app w) \<noteq> Converting
         \<and> (\<exists>f. selectedFile (app w) = Some f \<and> status (app w') = Converting
              \<and> pending w' = pending w @ [Transform f (targetFormat (app w))])"
  using assms
  by (auto simp: handler_simps render_def split: if_splits option.splits)

theorem convert_requires_health_witness:
  "\<exists>w w'. step w ClickConvert = Some w' \<and> isBackendHealthy (app w) = Some True
     \<and> status (app w') = Converting"
proof -
  have "\<exists>w. run init_world [Complete 0 (HealthDone health_ok), PickFile (Some photo_jpg)] = Some w
        \<and> step w ClickConvert \<noteq> None"
    by (simp add: eval_simps)
  then obtain w w' where st: "step w ClickConvert = Some w'" by blast
  from convert_requires_health [OF st] st show ?thesis by blast
qed

text \<open>
  C24: "Upload another" returns to the upload prompt: no selected file, no preview, status
  \<open>Idle\<close>, no converted result, empty error message; the operations in flight are not
  cancelled.
\<close>

theorem reset_clears:
  assumes "step w ClickReset = Some w'"
  shows "selectedFile (app w') = None \<and> previewUrl (app w') = None \<and> status (app w') = Idle
         \<and> convertedBlob (app w') = None \<and> errorMessage (app w') = JsStr '''' \<and> pending w' = pending w"
  using assms
  by (auto simp: handler_simps split: if_splits)

theorem reset_clears_witness:
  "\<exists>w'. step (init_world\<lparr>app := (app init_world)\<lparr>selectedFile := Some photo_jpg\<rparr>\<rparr>) ClickReset = Some w'
     \<and> selectedFile (app w') = None \<and> status (app w') = Idle"
proof -
  have "\<exists>w'. step (init_world\<lparr>app := (app init_world)\<lparr>selectedFile := Some photo_jpg\<rparr>\<rparr>) ClickReset = Some w'"
    by (simp add: eval_simps)
  then obtain w' where st: "step (init_world\<lparr>app := (app init_world)\<lparr>selectedFile := Some photo_jpg\<rparr>\<rparr>)
      ClickReset = Some w'" by blast
  from reset_clears [OF st] st show ?thesis by blast
qed

text \<open>
  C23: the download action is offered only after a successful conversion; it saves exactly
  one file, the converted blob under the derived filename, leaves the state unchanged
  and leaves no object URL unrevoked.
\<close>

theorem download_saves:
  assumes "reachable w" and "step w ClickDownload = Some w'"
  shows "status (app w) = Success \<and> app w' = app w \<and> live_urls w' = []
         \<and> (\<exists>b. convertedBlob (app w) = Some b \<and> saved w' = saved w @ [(convertedFilename (app w), b)])"
  using assms(2) reachable_live_urls [OF assms(1)]
  by (auto simp: render_def handle_download_def Let_def split: if_splits option.splits)

theorem download_saves_witness:
  "\<exists>w w'. reachable w \<and> step w ClickDownload = Some w' \<and> saved w' = [(''photo.png'', Blob ''image/png'' [137, 80, 78, 71])]"
proof -
  let ?es = "[Complete 0 (HealthDone health_ok), PickFile (Some photo_jpg), ClickConvert,
              Complete 1 (TransformDone (NetResp photo_png_response))]"
  have "\<exists>w. run init_world ?es = Some w \<and> step w ClickDownload \<noteq> None \<and> saved w = []
          \<and> convertedFilename (app w) = ''photo.png'' \<and> convertedBlob (app w) = Some (Blob ''image/png'' [137, 80, 78, 71])"
    by (simp add: eval_simps)
  then obtain w w' where "run init_world ?es = Some w" and st: "step w ClickDownload = Some w'"
      and d: "saved w = []" "convertedFilename (app w) = ''photo.png''"
        "convertedBlob (app w) = Some (Blob ''image/png'' [137, 80, 78, 71])"
    by blast
  then have r: "reachable w" by (blast intro: run_init_reachable)
  from download_saves [OF r st] d have "saved w' = [(''photo.png'', Blob ''image/png'' [137, 80, 78, 71])]"
    by auto
  with r st show ?thesis by blast
qed

text \<open>
  C25: a conversion that failed without a response (a network failure, whose message is
  a string) is not a dead end: from the error state with a file selected and a healthy
  backend, clicking convert again and receiving a 2xx response ends in \<open>Success\<close>
  with the response body as the converted result.
\<close>

theorem retry_after_error:
  assumes "selectedFile (app w) = Some f" and "isBackendHealthy (app w) = Some True"
      and "status (app w) = Error" and "errorMessage (app w) = JsStr m"
      and "validate_status (resp_status r)"
  shows "\<exists>w1 w2. step w ClickConvert = Some w1
           \<and> step w1 (Complete (length (pending w)) (TransformDone (NetResp r))) = Some w2
           \<and> status (app w2) = Success \<and> convertedBlob (app w2) = Some (resp_body r)"
  using assms
  by (simp add: handler_simps render_def api_simps nth_append)

theorem retry_after_error_witness:
  "\<exists>w1 w2. step (init_world\<lparr>app := (app init_world)\<lparr>selectedFile := Some photo_jpg,
              isBackendHealthy := Some True, status := Error, errorMessage := JsStr ''Network Error''\<rparr>\<rparr>)
              ClickConvert = Some w1
     \<and> step w1 (Complete (length (pending (init_world\<lparr>app := (app init_world)\<lparr>selectedFile := Some photo_jpg,
              isBackendHealthy := Some True, status := Error, errorMessage := JsStr ''Network Error''\<rparr>\<rparr>)))
           (TransformDone (NetResp photo_png_response))) = Some w2
     \<and> status (app w2) = Success"
proof -
  let ?w = "init_world\<lparr>app := (app init_world)\<lparr>selectedFile := Some photo_jpg,
              isBackendHealthy := Some True, status := Error, errorMessage := JsStr ''Network Error''\<rparr>\<rparr>"
  have h: "selectedFile (app ?w) = Some photo_jpg" "isBackendHealthy (app ?w) = Some True"
      "status (app ?w) = Error" "errorMessage (app ?w) = JsStr ''Network Error''"
      "validate_status (resp_status photo_png_response)"
    by (simp_all add: photo_png_response_def validate_status_def)
  from retry_after_error [OF h] show ?thesis by blast
qed

text \<open>
  C26: a mounted page has no dead end while the backend is reported healthy: from any page
  whose render has not thrown, whatever its state and whatever is in flight, the user can
  convert any image file to a success holding the server's result in at most four steps
  (upload another if a file is selected, pick the file, convert, and the response arrives).
\<close>

theorem healthy_page_can_convert:
  assumes "\<not> render_throws (app w)"
    and "isBackendHealthy (app w) = Some True" and "starts_with (file_type f) ''image/''"
    and "validate_status (resp_status (r :: http_response))"
  shows "\<exists>es w'. length es \<le> 4 \<and> run w es = Some w' \<and> status (app w') = Success
    \<and> selectedFile (app w') = Some f \<and> convertedBlob (app w') = Some (resp_body r)"
proof (cases "v_upload_area (render (app w))")
  case True
  let ?es = "[PickFile (Some f), ClickConvert, Complete (Suc (length (pending w))) (TransformDone (NetResp r))]"
  have "length ?es \<le> 4" by simp
  with convert_from_upload [OF True assms(2-4)] show ?thesis by blast
next
  case False
  let ?w1 = "w\<lparr>app := handle_reset (app w)\<rparr>"
  have st: "step w ClickReset = Some ?w1" using False assms(1) by (simp del: render_throws_iff)
  have "v_upload_area (render (app ?w1))" "isBackendHealthy (app ?w1) = Some True"
    using assms(2) by (simp_all add: render_def handle_reset_def)
  from convert_from_upload [OF this assms(3,4)] obtain w' where
    r: "run ?w1 [PickFile (Some f), ClickConvert,
      Complete (Suc (length (pending ?w1))) (TransformDone (NetResp r))] = Some w'"
    and w': "status (app w') = Success \<and> selectedFile (app w') = Some f
      \<and> convertedBlob (app w') = Some (resp_body r)"
    by blast
  from st r have "run w (ClickReset # [PickFile (Some f), ClickConvert,
      Complete (Suc (length (pending ?w1))) (TransformDone (NetResp r))]) = Some w'"
    by (simp del: step.simps)
  moreover have "length (ClickReset # [PickFile (Some f), ClickConvert,
      Complete (Suc (length (pending ?w1))) (TransformDone (NetResp r))]) \<le> 4" by simp
  ultimately show ?thesis using w' by blast
qed

theorem healthy_page_can_convert_witness:
  "\<exists>es w'. length es \<le> 4
    \<and> run (init_world\<lparr>app := init_app\<lparr>isBackendHealthy := Some True\<rparr>\<rparr>) es = Some w'
    \<and> status (app w') = Success \<and> selectedFile (app w') = Some photo_jpg
    \<and> convertedBlob (app w') = Some (resp_body photo_png_response)"
proof -
  have "\<not> render_throws (app (init_world\<lparr>app := init_app\<lparr>isBackendHealthy := Some True\<rparr>\<rparr>))"
    "isBackendHealthy (app (init_world\<lparr>app := init_app\<lparr>isBackendHealthy := Some True\<rparr>\<rparr>)) = Some True"
    "starts_with (file_type photo_jpg) ''image/''" "validate_status (resp_status photo_png_response)"
    by (simp_all add: eval_simps photo_jpg_def)
  then show ?thesis by (rule healthy_page_can_convert)
qed

text \<open>
  C27: the target format does not change while a conversion is running: no event of a page
  in status converting changes it.
\<close>

theorem format_frozen_while_converting:
  assumes "step w e = Some w'" and "status (app w) = Converting"
  shows "targetFormat (app w') = targetFormat (app w)"
  using assms(1)
proof (cases rule: step_SomeE)
  case user_event
  with assms(2) show ?thesis
    by (cases e) (auto simp: handler_simps render_def handle_download_def Let_def split: option.splits)
next
  case (completion i c st)
  then show ?thesis
    by (cases "pending w ! i"; cases c) (auto simp: handler_simps split: sum.splits)
qed

theorem format_frozen_while_converting_witness:
  "\<exists>w w'. step w (ClickFormat Jpg) = None \<and> step w ClickReset = Some w' \<and> status (app w) = Converting
     \<and> targetFormat (app w') = targetFormat (app w)"
proof -
  let ?w = "init_world\<lparr>app := (app init_world)\<lparr>selectedFile := Some photo_jpg, status := Converting\<rparr>\<rparr>"
  have st: "step ?w ClickReset = Some (?w\<lparr>app := handle_reset (app ?w)\<rparr>)" and
      nf: "step ?w (ClickFormat Jpg) = None" and c: "status (app ?w) = Converting"
    by (simp_all add: render_def)
  from format_frozen_while_converting [OF st c] st nf c show ?thesis by blast
qed

text \<open>
  C28: the backend health decides only whether convert is enabled: with any health value,
  every other user event is allowed or refused exactly as before, so an unhealthy or
  unknown backend blocks neither file selection nor the other actions.
\<close>

theorem health_gates_only_convert:
  assumes "e \<noteq> ClickConvert"
  shows "ui_allows (render (st\<lparr>isBackendHealthy := h\<rparr>)) e = ui_allows (render st) e"
  using assms by (cases e) (simp_all add: render_def split: option.split)

theorem health_gates_only_convert_witness:
  "ui_allows (render (init_app\<lparr>isBackendHealthy := Some False\<rparr>)) (PickFile (Some photo_jpg))
   = ui_allows (render init_app) (PickFile (Some photo_jpg))"
  by (rule health_gates_only_convert) simp

text \<open>
  C12: in every reachable page the preview shown is the data URL of an image file: a
  rejected file never reaches the preview, and a read in flight always reads an accepted
  file.
\<close>

theorem preview_is_image_data_url:
  assumes "reachable w" and "previewUrl (app w) = Some u"
  shows "\<exists>f. starts_with (file_type f) ''image/'' \<and> u = read_as_data_url f"
  using reachable_preview_inv [OF assms(1)] assms(2) by (simp add: preview_inv_def image_preview_def)

theorem preview_is_image_data_url_witness:
  "\<exists>w u. reachable w \<and> previewUrl (app w) = Some u
     \<and> (\<exists>f. starts_with (file_type f) ''image/'' \<and> u = read_as_data_url f)"
proof -
  have "\<exists>w. run init_world [PickFile (Some shot_png), Complete 1 ReadLoad] = Some w
      \<and> previewUrl (app w) = Some (read_as_data_url shot_png)"
    by (simp add: eval_simps)
  then obtain w where r: "run init_world [PickFile (Some shot_png), Complete 1 ReadLoad] = Some w"
      and p: "previewUrl (app w) = Some (read_as_data_url shot_png)" by blast
  from r have "reachable w" by (blast intro: run_init_reachable)
  with p preview_is_image_data_url [OF this p] show ?thesis by blast
qed

text \<open>
  C13: picking an image file on the upload page and letting its read complete selects the
  file and shows a preview whose data URL gives back the file's type and bytes (for a
  type without a comma, the separator of a data URL).
\<close>

theorem pick_image_previews_it:
  assumes "v_upload_area (render (app w))" and "starts_with (file_type f) ''image/''"
    and "CHR '','' \<notin> set (file_type f)"
  shows "\<exists>w' u. run w [PickFile (Some f), Complete (length (pending w)) ReadLoad] = Some w'
     \<and> selectedFile (app w') = Some f \<and> previewUrl (app w') = Some u
     \<and> parse_data_url u = Some (file_type f, file_bytes f)"
proof -
  have "file_type f \<noteq> []" using assms(2) by (auto simp: starts_with_def)
  then have pd: "parse_data_url (read_as_data_url f) = Some (file_type f, file_bytes f)"
    using assms(3) by (rule data_url_roundtrip)
  have "\<exists>w'. run w [PickFile (Some f), Complete (length (pending w)) ReadLoad] = Some w'
     \<and> selectedFile (app w') = Some f \<and> previewUrl (app w') = Some (read_as_data_url f)"
    using assms(1,2) upload_area_no_file [OF assms(1)] by (simp add: handler_simps nth_append)
  with pd show ?thesis by blast
qed

theorem pick_image_previews_it_witness:
  "\<exists>w' u. run init_world [PickFile (Some shot_png), Complete 1 ReadLoad] = Some w'
     \<and> selectedFile (app w') = Some shot_png \<and> previewUrl (app w') = Some u
     \<and> parse_data_url u = Some (''image/png'', [1, 2, 3])"
proof -
  have "v_upload_area (render (app init_world))" by (simp add: eval_simps)
  moreover have "starts_with (file_type shot_png) ''image/''" "CHR '','' \<notin> set (file_type shot_png)"
    by (simp_all add: shot_png_def starts_with_def)
  moreover have "length (pending init_world) = 1" by (simp add: init_world_def)
  ultimately have "\<exists>w' u. run init_world [PickFile (Some shot_png), Complete 1 ReadLoad] = Some w'
     \<and> selectedFile (app w') = Some shot_png \<and> previewUrl (app w') = Some u
     \<and> parse_data_url u = Some (file_type shot_png, file_bytes shot_png)"
    using pick_image_previews_it [of init_world shot_png] by simp
  moreover have "file_type shot_png = ''image/png''" "file_bytes shot_png = [1, 2, 3]"
    by (simp_all add: shot_png_def)
  ultimately show ?thesis by simp
qed

text \<open>
  C14: every step keeps a page well formed: a success has its result and a non-empty
  filename, a converting page has a request in flight, the health check is pending exactly
  until it reports, the preview is an image's data URL and every saved file is named.
\<close>

theorem step_preserves_wf:
  assumes "wf_world w" and "step w e = Some w'"
  shows "wf_world w'"
  using assms step_result_inv [OF assms(2)] step_converting_inv [OF assms(2)]
    step_health_inv [OF assms(2)] step_preview_inv [OF assms(2)] step_names_inv [OF assms(2)]
  by (simp add: wf_world_def)

theorem step_preserves_wf_witness:
  "\<exists>w'. step init_world (Complete 0 (HealthDone health_ok)) = Some w' \<and> wf_world w'"
proof -
  obtain w' where w': "step init_world (Complete 0 (HealthDone health_ok)) = Some w'"
    by (simp add: eval_simps)
  with init_wf_world step_preserves_wf [OF init_wf_world w'] show ?thesis by blast
qed

text \<open>
  C15: every file the page has saved has a non-empty name: a download happens only in
  status success, where the filename is one that \<open>transformImage\<close> derived.
\<close>

theorem saved_files_named:
  assumes "reachable w" and "(n, b) \<in> set (saved w)"
  shows "n \<noteq> []"
  using reachable_names_inv [OF assms(1)] assms(2) by (auto simp: names_inv_def)

theorem saved_files_named_witness:
  "\<exists>w n b. reachable w \<and> (n, b) \<in> set (saved w) \<and> n \<noteq> []"
proof -
  have "\<exists>w. run init_world [Complete 0 (HealthDone health_ok), PickFile (Some photo_jpg), ClickConvert,
        Complete 1 (TransformDone (NetResp photo_png_response)), ClickDownload] = Some w
      \<and> (''photo.png'', resp_body photo_png_response) \<in> set (saved w)"
    by (simp add: eval_simps)
  then obtain w where r: "run init_world [Complete 0 (HealthDone health_ok), PickFile (Some photo_jpg),
        ClickConvert, Complete 1 (TransformDone (NetResp photo_png_response)), ClickDownload] = Some w"
      and m: "(''photo.png'', resp_body photo_png_response) \<in> set (saved w)" by blast
  from r have "reachable w" by (blast intro: run_init_reachable)
  with m saved_files_named [OF this m] show ?thesis by blast
qed

text \<open>
  C16: the size shown for the selected file, \<open>(size / 1024).toFixed(2)\<close>, reads back as the
  hundredth of a kilobyte nearest to the exact size, the larger of two equally near ones,
  for every file size that is a safe integer of JavaScript.
\<close>

theorem size_text_nearest:
  assumes "selectedFile st = Some f" and "length (file_bytes f) < 2 ^ 53"
  shows "\<exists>t n. v_file_info (render st) = Some (file_name f, Some t, file_type f)
    \<and> parse_fixed2 t = Some n
    \<and> (\<forall>m. \<bar>real n / 100 - real (length (file_bytes f)) / 1024\<bar>
            \<le> \<bar>real m / 100 - real (length (file_bytes f)) / 1024\<bar>
        \<and> (\<bar>real m / 100 - real (length (file_bytes f)) / 1024\<bar>
            = \<bar>real n / 100 - real (length (file_bytes f)) / 1024\<bar> \<longrightarrow> m \<le> n))"
proof -
  have "length (file_bytes f) < 10 ^ 21 * 1024" using assms(2) by simp
  from to_fixed2_ratio_nearest [OF _ this] assms(1) show ?thesis
    by (simp add: render_def file_info_def size_kb_text_def)
qed

theorem size_text_nearest_witness:
  "v_file_info (render (init_app\<lparr>selectedFile := Some photo_jpg\<rparr>))
     = Some (''photo.jpg'', Some ''2.00'', ''image/jpeg'')
   \<and> parse_fixed2 ''2.00'' = Some 200
   \<and> (\<forall>m. \<bar>real 200 / 100 - real (length (file_bytes photo_jpg)) / 1024\<bar>
          \<le> \<bar>real m / 100 - real (length (file_bytes photo_jpg)) / 1024\<bar>
      \<and> (\<bar>real m / 100 - real (length (file_bytes photo_jpg)) / 1024\<bar>
          = \<bar>real 200 / 100 - real (length (file_bytes photo_jpg)) / 1024\<bar> \<longrightarrow> m \<le> 200))"
proof -
  have info: "v_file_info (render (init_app\<lparr>selectedFile := Some photo_jpg\<rparr>))
     = Some (''photo.jpg'', Some ''2.00'', ''image/jpeg'')"
    by (simp add: render_def file_info_def size_kb_text_def to_fixed2_ratio_def
        to_fixed2_digits_def decimal.simps photo_jpg_def char_of_iff)
  have "length (file_bytes photo_jpg) < 2 ^ 53" by (simp add: photo_jpg_def)
  from size_text_nearest [OF _ this, of "init_app\<lparr>selectedFile := Some photo_jpg\<rparr>"] info
  obtain n where "parse_fixed2 ''2.00'' = Some n"
    and "\<forall>m. \<bar>real n / 100 - real (length (file_bytes photo_jpg)) / 1024\<bar>
          \<le> \<bar>real m / 100 - real (length (file_bytes photo_jpg)) / 1024\<bar>
      \<and> (\<bar>real m / 100 - real (length (file_bytes photo_jpg)) / 1024\<bar>
          = \<bar>real n / 100 - real (length (file_bytes photo_jpg)) / 1024\<bar> \<longrightarrow> m \<le> n)"
    by auto
  moreover have "parse_fixed2 ''2.00'' = Some 200"
    by (simp add: parse_fixed2_def parse_nat_def is_digit_def digits_val_def)
  ultimately show ?thesis using info by simp
qed

text \<open>
  C30: what a failed conversion does to the page: when \<open>transformImage\<close> rejects, the
  status becomes error for the same selected file and the filename is kept. A transport
  failure is displayed as the axios message (\<^verbatim>\<open>Conversion failed\<close> when it is
  empty), and so is a completed request of status 0 (''Network Error''). A response with
  any other non-2xx status leaves the response's \<open>Blob\<close> in \<open>errorMessage\<close>, and the
  render of line 241 throws.
\<close>

theorem conversion_failure_shown:
  assumes "\<not> (\<exists>r. out = NetResp r \<and> validate_status (resp_status r))" and "selectedFile st = Some f"
  shows "status (convert_done fmt out st) = Error \<and> selectedFile (convert_done fmt out st) = Some f
    \<and> convertedFilename (convert_done fmt out st) = convertedFilename st
    \<and> (\<forall>msg. out = NetFail msg \<longrightarrow> \<not> render_throws (convert_done fmt out st)
        \<and> v_message (render (convert_done fmt out st))
            = Some (JsStr (if msg = [] then ''Conversion failed'' else msg)))
    \<and> (\<forall>r. out = NetResp r \<longrightarrow>
        (if resp_status r = 0
         then \<not> render_throws (convert_done fmt out st)
           \<and> v_message (render (convert_done fmt out st)) = Some (JsStr ''Network Error'')
         else render_throws (convert_done fmt out st)))"
proof (cases out)
  case (NetFail msg)
  then show ?thesis using assms(2)
    by (simp add: convert_done_def api_simps conversion_error_message_def render_def)
next
  case (NetResp r)
  with assms(1) have "\<not> validate_status (resp_status r)" by blast
  with NetResp assms(2) show ?thesis
    by (simp add: convert_done_def transform_image_def axios_settle_def xhr_deliver_def
        conversion_error_message_def render_def)
qed

theorem conversion_failure_shown_witness:
  "status (convert_done ''png'' (NetResp server_error) (init_app\<lparr>selectedFile := Some photo_jpg\<rparr>)) = Error
   \<and> render_throws (convert_done ''png'' (NetResp server_error) (init_app\<lparr>selectedFile := Some photo_jpg\<rparr>))"
proof -
  have "\<not> (\<exists>r. NetResp server_error = NetResp r \<and> validate_status (resp_status r))"
    by (simp add: server_error_def validate_status_def)
  from conversion_failure_shown [OF this, of "init_app\<lparr>selectedFile := Some photo_jpg\<rparr>" photo_jpg "''png''"]
  show ?thesis by (simp add: server_error_def)
qed

text \<open>
  C31: the only event that crashes a page is the completion of a conversion request whose
  response has a status other than 0 and outside 200..299: no user event and no other
  completion leaves a \<open>Blob\<close> in the error message, and the one that does leaves the
  body of that response.
\<close>

theorem only_error_response_crashes:
  assumes "step w e = Some w'" and "render_throws (app w')"
  shows "\<exists>i f fmt r. e = Complete i (TransformDone (NetResp r)) \<and> pending w ! i = Transform f fmt
           \<and> resp_status r \<noteq> 0 \<and> \<not> validate_status (resp_status r)
           \<and> errorMessage (app w') = JsBlob (resp_body r)"
  using assms(1)
proof (cases rule: step_SomeE)
  case user_event
  then show ?thesis using assms(2)
    by (cases e) (auto simp: handler_simps split: if_splits option.splits)
next
  case (completion i c st)
  then show ?thesis using assms(2)
    by (cases "pending w ! i"; cases c)
       (auto simp: handler_simps api_simps split: sum.splits if_splits net_outcome.splits)
qed

theorem only_error_response_crashes_witness:
  "\<exists>w w'. step w (Complete 1 (TransformDone (NetResp server_error))) = Some w' \<and> render_throws (app w')
     \<and> errorMessage (app w') = JsBlob (resp_body server_error)"
proof -
  have "\<exists>w w'. run init_world [Complete 0 (HealthDone health_ok), PickFile (Some photo_jpg), ClickConvert]
          = Some w \<and> step w (Complete 1 (TransformDone (NetResp server_error))) = Some w'
          \<and> render_throws (app w')"
    by (simp add: eval_simps del: render_throws_iff) (simp add: eval_simps)
  then obtain w w' where st: "step w (Complete 1 (TransformDone (NetResp server_error))) = Some w'"
      and t: "render_throws (app w')" by blast
  from only_error_response_crashes [OF st t] have "errorMessage (app w') = JsBlob (resp_body server_error)"
    by auto
  with st t show ?thesis by blast
qed

end
