(* ===== verification/Spec_Machine.thy ===== *)
theory Spec_Machine
  imports Session
begin

text \<open>
  The abstract specification of the conversion session (spec section 4.1) and the
  refinement of it by the page of \<open>Session\<close>. The abstract state keeps what the spec
  names: the selected source, the conversion status, the converted result (payload and
  filename) and the backend health. \<open>spec_step\<close> has one rule per transition of the
  spec; \<open>abs_world\<close> reads the abstract state off a page, showing the result only in
  status success, where the page shows it.
\<close>

record spec_state =
  s_source :: "js_file option"
  s_status :: conversion_status
  s_result :: "(blob \<times> string) option"
  s_health :: "bool option"

definition spec_init :: spec_state where
  "spec_init = \<lparr>s_source = None, s_status = Idle, s_result = None, s_health = None\<rparr>"

definition is_image :: "js_file \<Rightarrow> bool" where
  "is_image f \<longleftrightarrow> starts_with (file_type f) ''image/''"

inductive spec_step :: "spec_state \<Rightarrow> spec_state \<Rightarrow> bool" where
  select: "is_image f \<Longrightarrow> spec_step s (s\<lparr>s_source := Some f, s_status := Idle, s_result := None\<rparr>)"
| reject: "\<not> is_image f \<Longrightarrow> spec_step s (s\<lparr>s_status := Error, s_result := None\<rparr>)"
| convert: "s_source s \<noteq> None \<Longrightarrow> s_health s = Some True \<Longrightarrow> s_status s \<noteq> Converting \<Longrightarrow>
     spec_step s (s\<lparr>s_status := Converting, s_result := None\<rparr>)"
| succeed: "s_status s = Converting \<Longrightarrow> spec_step s (s\<lparr>s_status := Success, s_result := Some r\<rparr>)"
| fail: "s_status s = Converting \<Longrightarrow> spec_step s (s\<lparr>s_status := Error, s_result := None\<rparr>)"
| reset: "spec_step s (s\<lparr>s_source := None, s_status := Idle, s_result := None\<rparr>)"
| health: "s_health s = None \<Longrightarrow> spec_step s (s\<lparr>s_health := Some b\<rparr>)"

code_pred spec_step .

definition abs_app :: "app_state \<Rightarrow> spec_state" where
  "abs_app st =
     \<lparr>s_source = selectedFile st, s_status = status st,
      s_result = (if status st = Success
                  then map_option (\<lambda>b. (b, convertedFilename st)) (convertedBlob st) else None),
      s_health = isBackendHealthy st\<rparr>"

definition abs_world :: "world \<Rightarrow> spec_state" where
  "abs_world w = abs_app (app w)"

fun stale_completion :: "world \<Rightarrow> event \<Rightarrow> bool" where
  "stale_completion w (Complete i (TransformDone out)) =
     (i < length (pending w) \<and>
      (case pending w ! i of
         Transform f fmt \<Rightarrow> \<not> (status (app w) = Converting \<and> selectedFile (app w) = Some f)
       | _ \<Rightarrow> False))"
| "stale_completion w e = False"

inductive spec_reach :: "spec_state \<Rightarrow> bool" where
  start: "spec_reach spec_init"
| extend: "spec_reach s \<Longrightarrow> spec_step s t \<Longrightarrow> spec_reach t"

fun run_no_stale :: "world \<Rightarrow> event list \<Rightarrow> bool" where
  "run_no_stale w [] = True"
| "run_no_stale w (e # es) =
     (\<not> stale_completion w e \<and> (case step w e of None \<Rightarrow> True | Some w' \<Rightarrow> run_no_stale w' es))"

inductive_cases spec_step_elim: "spec_step s t"

lemma abs_init: "abs_world init_world = spec_init"
  by (simp add: abs_world_def abs_app_def init_world_def init_app_def spec_init_def)

lemma abs_app_dragging [simp]: "abs_app (st\<lparr>isDragging := b\<rparr>) = abs_app st"
  by (simp add: abs_app_def)

lemma file_select_refines:
  "abs_app (fst (handle_file_select f st)) = abs_app st
   \<or> spec_step (abs_app st) (abs_app (fst (handle_file_select f st)))"
proof (cases "is_image f")
  case True
  then have "abs_app (fst (handle_file_select f st))
      = (abs_app st)\<lparr>s_source := Some f, s_status := Idle, s_result := None\<rparr>"
    by (simp add: abs_app_def handler_simps is_image_def)
  with True show ?thesis by (simp add: spec_step.select)
next
  case False
  then have "abs_app (fst (handle_file_select f st)) = (abs_app st)\<lparr>s_status := Error, s_result := None\<rparr>"
    by (simp add: abs_app_def handler_simps is_image_def)
  with False show ?thesis by (simp add: spec_step.reject)
qed

lemma dispatch_refines:
  assumes "ui_allows (render (app w)) e" and "\<forall>i c. e \<noteq> Complete i c"
  shows "abs_world (dispatch w e) = abs_world w \<or> spec_step (abs_world w) (abs_world (dispatch w e))"
proof (cases e)
  case (PickFile fo)
  then show ?thesis
    using file_select_refines [of _ "app w"]
    by (cases fo) (simp_all add: abs_world_def handle_file_input_change_def spawn_def)
next
  case (DropOnArea fo)
  then show ?thesis
    using file_select_refines [of _ "(app w)\<lparr>isDragging := False\<rparr>"]
    by (cases fo) (simp_all add: abs_world_def handle_drop_def spawn_def)
next
  case ClickConvert
  with assms(1) obtain f where f: "selectedFile (app w) = Some f"
      and g: "isBackendHealthy (app w) = Some True" "status (app w) \<noteq> Converting"
    by (auto simp: render_def split: option.splits)
  with ClickConvert have "abs_world (dispatch w e) = (abs_world w)\<lparr>s_status := Converting, s_result := None\<rparr>"
    by (simp add: abs_world_def abs_app_def handler_simps)
  moreover have "s_source (abs_world w) \<noteq> None" "s_health (abs_world w) = Some True"
      "s_status (abs_world w) \<noteq> Converting"
    using f g by (simp_all add: abs_world_def abs_app_def)
  ultimately show ?thesis by (metis spec_step.convert)
next
  case ClickReset
  then have "abs_world (dispatch w e) = (abs_world w)\<lparr>s_source := None, s_status := Idle, s_result := None\<rparr>"
    by (simp add: abs_world_def abs_app_def handler_simps)
  then show ?thesis by (simp add: spec_step.reset)
next
  case (Complete i c)
  with assms(2) show ?thesis by simp
qed (simp_all add: abs_world_def abs_app_def handler_simps)

lemma complete_refines:
  assumes "health_inv w" and "i < length (pending w)"
      and "complete_op (pending w ! i) c (app w) = Some st"
      and "\<not> stale_completion w (Complete i c)"
  shows "abs_world (w\<lparr>app := st, pending := drop_nth i (pending w)\<rparr>) = abs_world w
         \<or> spec_step (abs_world w) (abs_world (w\<lparr>app := st, pending := drop_nth i (pending w)\<rparr>))"
    (is "abs_world ?w' = _ \<or> _")
proof (cases "pending w ! i")
  case HealthCheck
  with assms(3) obtain out where st: "st = health_done out (app w)"
    by (cases c) auto
  from HealthCheck assms(2) have "count (mset (pending w)) HealthCheck \<noteq> 0"
    by (metis count_eq_zero_iff nth_mem set_mset_mset)
  with assms(1) have "isBackendHealthy (app w) = None"
    by (auto simp: health_inv_def split: if_splits)
  moreover have "abs_world ?w' = (abs_world w)\<lparr>s_health := Some (check_health out)\<rparr>"
    by (simp add: st abs_world_def abs_app_def handler_simps)
  moreover have "s_health (abs_world w) = None"
    using calculation by (simp add: abs_world_def abs_app_def)
  ultimately show ?thesis by (metis spec_step.health)
next
  case (ReadPreview f)
  with assms(3) have "st = app w \<or> (\<exists>url. st = read_done url (app w))"
    by (cases c) auto
  then show ?thesis by (auto simp: abs_world_def abs_app_def handler_simps)
next
  case (Transform f fmt)
  with assms(3) obtain out where st: "st = convert_done (format_str fmt) out (app w)"
      and c: "c = TransformDone out"
    by (cases c) auto
  with Transform assms(2,4) have conv: "status (app w) = Converting"
    by simp
  show ?thesis
  proof (cases "transform_image (format_str fmt) out")
    case (Inl err)
    then have "abs_world ?w' = (abs_world w)\<lparr>s_status := Error, s_result := None\<rparr>"
      by (simp add: st abs_world_def abs_app_def handler_simps)
    moreover have "s_status (abs_world w) = Converting" using conv by (simp add: abs_world_def abs_app_def)
    ultimately show ?thesis by (metis spec_step.fail)
  next
    case (Inr t)
    then have "abs_world ?w' = (abs_world w)\<lparr>s_status := Success, s_result := Some (tr_data t, tr_filename t)\<rparr>"
      by (simp add: st abs_world_def abs_app_def handler_simps)
    moreover have "s_status (abs_world w) = Converting" using conv by (simp add: abs_world_def abs_app_def)
    ultimately show ?thesis by (metis spec_step.succeed)
  qed
qed

lemma step_refines:
  assumes "health_inv w" and "step w e = Some w'" and "\<not> stale_completion w e"
  shows "abs_world w' = abs_world w \<or> spec_step (abs_world w) (abs_world w')"
  using assms(2)
proof (cases rule: step_SomeE)
  case user_event
  then show ?thesis by (simp add: dispatch_refines)
next
  case (completion i c st)
  with assms(1,3) show ?thesis
    by (simp add: complete_refines)
qed

text \<open>
  C9: every step of a reachable page that is not the completion of a stale conversion
  request is either invisible in the abstract state or a transition of the spec's state
  machine: the page refines the spec up to the stale-result guard it lacks.
\<close>

theorem page_refines_spec:
  assumes "reachable w" and "step w e = Some w'" and "\<not> stale_completion w e"
  shows "abs_world w' = abs_world w \<or> spec_step (abs_world w) (abs_world w')"
  using step_refines [OF reachable_health_inv [OF assms(1)] assms(2,3)] .

theorem page_refines_spec_witness:
  "\<exists>w'. step init_world (PickFile (Some photo_jpg)) = Some w'
     \<and> spec_step (abs_world init_world) (abs_world w')"
proof -
  have "\<exists>w'. step init_world (PickFile (Some photo_jpg)) = Some w'"
    by (simp add: eval_simps)
  then obtain w' where st: "step init_world (PickFile (Some photo_jpg)) = Some w'" by blast
  have ne: "abs_world w' \<noteq> abs_world init_world"
    using st by (auto simp: eval_simps abs_world_def abs_app_def)
  from page_refines_spec [OF reachable.init st] ne st show ?thesis by auto
qed

text \<open>
  C33: the stale completion is reachable and is no transition of the spec: after a reset
  and a new selection, the late response of the old request moves the page from idle to
  success, which the spec's state machine does not allow.
\<close>

theorem stale_completion_breaks_spec:
  "\<exists>w e w'. reachable w \<and> step w e = Some w' \<and> stale_completion w e
     \<and> \<not> (abs_world w' = abs_world w \<or> spec_step (abs_world w) (abs_world w'))"
proof -
  let ?es = "[Complete 0 (HealthDone health_ok), PickFile (Some photo_jpg), ClickConvert,
              ClickReset, PickFile (Some shot_png)]"
  let ?e = "Complete 1 (TransformDone (NetResp photo_png_response))"
  have "\<exists>w. run init_world ?es = Some w \<and> status (app w) = Idle
        \<and> pending w ! 1 = Transform photo_jpg Png \<and> length (pending w) = 3
        \<and> (\<exists>w'. step w ?e = Some w' \<and> status (app w') = Success)"
    by (simp add: eval_simps)
  then obtain w w' where r: "run init_world ?es = Some w" and idle: "status (app w) = Idle"
      and p: "pending w ! 1 = Transform photo_jpg Png" "length (pending w) = 3"
      and st: "step w ?e = Some w'" and succ: "status (app w') = Success"
    by blast
  have reach: "reachable w" using r by (blast intro: run_init_reachable)
  have stale: "stale_completion w ?e" using p idle by simp
  have "\<not> spec_step (abs_world w) (abs_world w')"
  proof
    assume "spec_step (abs_world w) (abs_world w')"
    then show False
      using idle succ by (cases rule: spec_step_elim) (auto simp: abs_world_def abs_app_def)
  qed
  moreover have "abs_world w' \<noteq> abs_world w"
    using idle succ by (auto simp: abs_world_def abs_app_def)
  ultimately show ?thesis using reach st stale by blast
qed

lemma run_refines_spec:
  assumes "reachable w0" and "spec_reach (abs_world w0)"
      and "run w0 es = Some w" and "run_no_stale w0 es"
  shows "spec_reach (abs_world w)"
  using assms
proof (induction es arbitrary: w0)
  case Nil
  then show ?case by simp
next
  case (Cons e es)
  then obtain w1 where st: "step w0 e = Some w1" and r: "run w1 es = Some w"
    by (auto split: option.splits)
  from Cons.prems(4) st have ns: "\<not> stale_completion w0 e" and ns': "run_no_stale w1 es"
    by auto
  have reach1: "reachable w1" using Cons.prems(1) st by (rule reachable.step)
  have "spec_reach (abs_world w1)"
    using step_refines [OF reachable_health_inv [OF Cons.prems(1)] st ns] Cons.prems(2)
    by (auto intro: spec_reach.extend)
  from reach1 this r ns' show ?case by (rule Cons.IH)
qed

text \<open>
  C10: every run of the page from its first render in which no stale conversion request
  completes ends in an abstract state that the spec's state machine can reach.
\<close>

theorem runs_refine_spec:
  assumes "run init_world es = Some w" and "run_no_stale init_world es"
  shows "spec_reach (abs_world w)"
proof (rule run_refines_spec [OF reachable.init _ assms])
  show "spec_reach (abs_world init_world)"
    unfolding abs_init by (rule spec_reach.start)
qed

theorem runs_refine_spec_witness:
  "\<exists>w. run init_world [Complete 0 (HealthDone health_ok), PickFile (Some photo_jpg), ClickConvert,
        Complete 1 (TransformDone (NetResp photo_png_response))] = Some w
     \<and> spec_reach (abs_world w)"
proof -
  let ?es = "[Complete 0 (HealthDone health_ok), PickFile (Some photo_jpg), ClickConvert,
        Complete 1 (TransformDone (NetResp photo_png_response))]"
  have "\<exists>w. run init_world ?es = Some w" by (simp add: eval_simps)
  then obtain w where r: "run init_world ?es = Some w" by blast
  have "run_no_stale init_world ?es" by (simp add: eval_simps)
  with r runs_refine_spec [OF r] show ?thesis by blast
qed

end
