(* ===== verification/Http_Headers.thy ===== *)
theory Http_Headers
  imports File_Api "HOL-Library.List_Lexorder" "HOL-Library.Char_ord"
begin

text \<open>
  How the headers of a conversion response reach \<open>transformImage\<close> (fileApi.ts line 48,
  \<open>response.headers['content-disposition']\<close>). The server's header list passes three
  stages that are not code of the repository and are modelled from their standards and
  source: the browser's CORS filter (Fetch: a cross-origin response exposes to scripts only
  the CORS-safelisted headers and those named in Access-Control-Expose-Headers, never
  Set-Cookie), \<open>XMLHttpRequest.getAllResponseHeaders\<close> (names lower-cased, sorted,
  the values of one name combined with \<^verbatim>\<open>, \<close>, one \<^verbatim>\<open>name: value\<close> line
  each, ended by CR LF), and axios's \<open>parseHeaders\<close>, which splits that text at line
  feeds and builds the headers object from each line's text before and after its first
  colon, trimmed. \<open>receive\<close> composes them; its lemma gives the headers object of every
  response whose headers are well formed (token names, values without CR, LF or NUL),
  and the claims apply it to the Content-Disposition lookup. The page is served from
  another origin than \<^verbatim>\<open>http://localhost:8080\<close> whenever it is not served by the
  API server itself, which \<open>cross\<close> records.
\<close>

subsection \<open>String operations of the engine\<close>

definition ascii_lower :: "char \<Rightarrow> char" where
  "ascii_lower c = (let n = (of_char c :: nat) in if 65 \<le> n \<and> n \<le> 90 then char_of (n + 32) else c)"

definition lower :: "string \<Rightarrow> string" where
  "lower s = map ascii_lower s"

definition js_space :: "char \<Rightarrow> bool" where
  "js_space c \<longleftrightarrow> (of_char c :: nat) \<in> {9, 10, 11, 12, 13, 32, 160}"

definition js_trim :: "string \<Rightarrow> string" where
  "js_trim s = rev (dropWhile js_space (rev (dropWhile js_space s)))"

fun split_on :: "char \<Rightarrow> string \<Rightarrow> string list" where
  "split_on d [] = [[]]"
| "split_on d (c # cs) = (let r = split_on d cs in if c = d then [] # r else (c # hd r) # tl r)"

subsection \<open>The response on the wire and the CORS filter (Fetch)\<close>

record wire_response =
  w_status :: nat
  w_headers :: "(string \<times> string) list"
  w_body :: blob

definition cors_safelisted :: "string \<Rightarrow> bool" where
  "cors_safelisted n \<longleftrightarrow> n \<in> {''cache-control'', ''content-language'', ''content-length'', ''content-type'',
     ''expires'', ''last-modified'', ''pragma''}"

definition http_strip :: "string \<Rightarrow> string" where
  "http_strip s = rev (dropWhile (\<lambda>c. c = CHR '' '' \<or> c = CHR 0x09) (rev (dropWhile (\<lambda>c. c = CHR '' '' \<or> c = CHR 0x09) s)))"

definition exposed_names :: "(string \<times> string) list \<Rightarrow> string list" where
  "exposed_names hs =
     concat (map (\<lambda>(n, v). if lower n = ''access-control-expose-headers''
                            then map (\<lambda>x. lower (http_strip x)) (split_on CHR '','' v) else []) hs)"

definition cors_exposed :: "bool \<Rightarrow> (string \<times> string) list \<Rightarrow> string \<Rightarrow> bool" where
  "cors_exposed cross hs n \<longleftrightarrow>
     \<not> cross \<or> cors_safelisted (lower n) \<or> lower n \<in> set (exposed_names hs) \<or> ''*'' \<in> set (exposed_names hs)"

definition forbidden_response_header :: "string \<Rightarrow> bool" where
  "forbidden_response_header n \<longleftrightarrow> lower n \<in> {''set-cookie'', ''set-cookie2''}"

definition visible_headers :: "bool \<Rightarrow> (string \<times> string) list \<Rightarrow> (string \<times> string) list" where
  "visible_headers cross hs = filter (\<lambda>(n, v). \<not> forbidden_response_header n \<and> cors_exposed cross hs n) hs"

subsection \<open>XMLHttpRequest.getAllResponseHeaders\<close>

fun join :: "string \<Rightarrow> string list \<Rightarrow> string" where
  "join sep [] = []"
| "join sep [x] = x"
| "join sep (x # xs) = x @ sep @ join sep xs"

definition combined_value :: "(string \<times> string) list \<Rightarrow> string \<Rightarrow> string" where
  "combined_value hs n = join '', '' (map snd (filter (\<lambda>(m, v). lower m = n) hs))"

definition sort_and_combine :: "(string \<times> string) list \<Rightarrow> (string \<times> string) list" where
  "sort_and_combine hs = map (\<lambda>n. (n, combined_value hs n)) (sort (remdups (map (\<lambda>(n, v). lower n) hs)))"

definition get_all_response_headers :: "(string \<times> string) list \<Rightarrow> string" where
  "get_all_response_headers hs =
     concat (map (\<lambda>(n, v). n @ '': '' @ v @ [CHR 0x0D, CHR ''\<newline>'']) (sort_and_combine hs))"

subsection \<open>axios parseHeaders and the response object\<close>

definition ignore_duplicate_of :: "string \<Rightarrow> bool" where
  "ignore_duplicate_of k \<longleftrightarrow> k \<in> {''age'', ''authorization'', ''content-length'', ''content-type'', ''etag'',
     ''expires'', ''from'', ''host'', ''if-modified-since'', ''if-unmodified-since'', ''last-modified'',
     ''location'', ''max-forwards'', ''proxy-authorization'', ''referer'', ''retry-after'', ''user-agent''}"

definition parse_header_line :: "(string \<rightharpoonup> string) \<Rightarrow> string \<Rightarrow> (string \<rightharpoonup> string)" where
  "parse_header_line parsed line =
     (let i = length (takeWhile (\<lambda>c. c \<noteq> CHR '':'') line);
          key = (if i < length line then lower (js_trim (take i line)) else []);
          val = js_trim (drop (Suc i) line)
      in if key = [] \<or> (parsed key \<noteq> None \<and> ignore_duplicate_of key) then parsed
         else parsed(key \<mapsto> (case parsed key of Some v \<Rightarrow> v @ '', '' @ val | None \<Rightarrow> val)))"

definition axios_parse_headers :: "string \<Rightarrow> (string \<rightharpoonup> string)" where
  "axios_parse_headers raw = foldl parse_header_line Map.empty (split_on CHR ''\<newline>'' raw)"

definition receive :: "bool \<Rightarrow> wire_response \<Rightarrow> http_response" where
  "receive cross wr =
     \<lparr>resp_status = w_status wr,
      resp_headers = axios_parse_headers (get_all_response_headers (visible_headers cross (w_headers wr))),
      resp_body = w_body wr\<rparr>"

subsection \<open>Well-formed headers and example responses\<close>

definition photo_wire_hidden :: wire_response where
  "photo_wire_hidden = \<lparr>w_status = 200,
     w_headers = [(''Content-Type'', ''image/png''), (''Content-Disposition'', ''attachment; filename=\"photo.png\"'')],
     w_body = Blob ''image/png'' [137, 80, 78, 71]\<rparr>"

definition photo_wire_exposed :: wire_response where
  "photo_wire_exposed = photo_wire_hidden\<lparr>w_headers :=
     w_headers photo_wire_hidden @ [(''Access-Control-Expose-Headers'', ''Content-Disposition'')]\<rparr>"

definition tchar :: "char \<Rightarrow> bool" where
  "tchar c \<longleftrightarrow> (let n = (of_char c :: nat) in
     (48 \<le> n \<and> n \<le> 57) \<or> (65 \<le> n \<and> n \<le> 90) \<or> (97 \<le> n \<and> n \<le> 122)
     \<or> c \<in> set ''!#$%&'*+-.^_`|~'')"

definition wf_header :: "string \<times> string \<Rightarrow> bool" where
  "wf_header h \<longleftrightarrow> fst h \<noteq> [] \<and> (\<forall>c\<in>set (fst h). tchar c)
     \<and> (\<forall>c\<in>set (snd h). c \<noteq> CHR 0x00 \<and> c \<noteq> CHR ''\<newline>'' \<and> c \<noteq> CHR 0x0D)"

definition key_name :: "string \<Rightarrow> bool" where
  "key_name n \<longleftrightarrow> n \<noteq> [] \<and> (\<forall>c\<in>set n. tchar c) \<and> lower n = n"

subsection \<open>Lemmas\<close>

lemma split_on_append:
  "d \<notin> set xs \<Longrightarrow> split_on d (xs @ d # ys) = xs # split_on d ys"
  by (induction xs) (auto simp: Let_def)

lemma js_trim_Cons: "js_space c \<Longrightarrow> js_trim (c # s) = js_trim s"
  by (simp add: js_trim_def)

lemma js_trim_snoc: "js_space c \<Longrightarrow> js_trim (s @ [c]) = js_trim s"
proof (cases "\<forall>x\<in>set s. js_space x")
  case True
  assume c: "js_space c"
  have "\<forall>x\<in>set (s @ [c]). js_space x" using True c by simp
  then have d1: "dropWhile js_space (s @ [c]) = []" and d2: "dropWhile js_space s = []"
    using True by (simp_all only: dropWhile_eq_Nil_conv)
  show ?thesis unfolding js_trim_def d1 d2 by simp
next
  case False
  assume c: "js_space c"
  from False have "dropWhile js_space (s @ [c]) = dropWhile js_space s @ [c]"
    by (induction s) auto
  with c show ?thesis by (simp add: js_trim_def)
qed

lemma tchar_props: "tchar c \<Longrightarrow> c \<noteq> CHR '':'' \<and> c \<noteq> CHR ''\<newline>'' \<and> \<not> js_space c \<and> ascii_lower (ascii_lower c) = ascii_lower c"
  by (auto simp: tchar_def js_space_def ascii_lower_def Let_def)


lemma tchar_lower: "tchar c \<Longrightarrow> tchar (ascii_lower c)"
  by (auto simp: tchar_def ascii_lower_def Let_def)

lemma set_join: "set (join sep xs) \<subseteq> set sep \<union> \<Union> (set ` set xs)"
  by (induction sep xs rule: join.induct) auto

lemma key_name_lower: "n \<noteq> [] \<Longrightarrow> \<forall>c\<in>set n. tchar c \<Longrightarrow> key_name (lower n)"
  by (auto simp: key_name_def lower_def tchar_lower comp_def tchar_props)

lemma js_trim_ends:
  assumes "s = [] \<or> \<not> js_space (hd s) \<and> \<not> js_space (last s)"
  shows "js_trim s = s"
proof (cases "s = []")
  case False
  with assms have "dropWhile js_space s = s" "dropWhile js_space (rev s) = rev s"
    by (simp_all add: dropWhile_eq_self_iff hd_rev)
  then show ?thesis by (simp add: js_trim_def)
qed (simp add: js_trim_def)

lemma js_trim_id: "\<forall>c\<in>set n. \<not> js_space c \<Longrightarrow> js_trim n = n"
  by (rule js_trim_ends) (auto simp: hd_in_set last_in_set)

lemma parse_header_line_new:
  assumes "key_name n" and "m n = None"
  shows "parse_header_line m (n @ '': '' @ v @ [CHR 0x0D]) = m(n \<mapsto> js_trim v)"
proof -
  have t: "\<forall>c\<in>set n. tchar c" "n \<noteq> []" "lower n = n" using assms(1) by (auto simp: key_name_def)
  then have nc: "\<forall>c\<in>set n. c \<noteq> CHR '':''" and ns: "\<forall>c\<in>set n. \<not> js_space c"
    by (auto dest: tchar_props)
  then have tw: "takeWhile (\<lambda>c. c \<noteq> CHR '':'') (n @ CHR '':'' # CHR '' '' # v @ [CHR 0x0D]) = n"
    by (simp add: takeWhile_append2)
  have sp: "js_space CHR '' ''" "js_space (CHR 0x0D)" by (simp_all add: js_space_def)
  have "js_trim (CHR '' '' # v @ [CHR 0x0D]) = js_trim v"
    using js_trim_Cons [OF sp(1)] js_trim_snoc [OF sp(2)] by simp
  then show ?thesis
    using t assms(2) js_trim_id [OF ns] by (simp add: parse_header_line_def tw Let_def)
qed

lemma parse_header_line_Nil: "parse_header_line m [] = m"
  by (simp add: parse_header_line_def)


lemma split_serialized:
  assumes "\<forall>h\<in>set L. CHR ''\<newline>'' \<notin> set (fst h) \<and> CHR ''\<newline>'' \<notin> set (snd h)"
  shows "split_on CHR ''\<newline>'' (concat (map (\<lambda>(n, v). n @ '': '' @ v @ [CHR 0x0D, CHR ''\<newline>'']) L))
         = map (\<lambda>(n, v). n @ '': '' @ v @ [CHR 0x0D]) L @ [[]]"
  using assms
proof (induction L)
  case Nil
  then show ?case by simp
next
  case (Cons h L)
  obtain n v where h: "h = (n, v)" by fastforce
  have "CHR ''\<newline>'' \<notin> set (n @ '': '' @ v @ [CHR 0x0D])" using Cons.prems h by auto
  from split_on_append [OF this] Cons show ?case by (simp add: h)
qed

lemma fold_lines:
  assumes "distinct (map fst L)" and "\<forall>h\<in>set L. key_name (fst h)" and "\<forall>h\<in>set L. m (fst h) = None"
  shows "foldl parse_header_line m (map (\<lambda>(n, v). n @ '': '' @ v @ [CHR 0x0D]) L)
         = m ++ map_of (map (\<lambda>(n, v). (n, js_trim v)) L)"
  using assms
proof (induction L arbitrary: m)
  case Nil
  then show ?case by simp
next
  case (Cons h L)
  obtain n v where h: "h = (n, v)" by fastforce
  let ?line = "\<lambda>(n, v). n @ '': '' @ v @ [CHR 0x0D]" and ?val = "\<lambda>(n, v). (n, js_trim v)"
  have p: "parse_header_line m (n @ '': '' @ v @ [CHR 0x0D]) = m(n \<mapsto> js_trim v)"
    using Cons.prems h by (intro parse_header_line_new) auto
  have ih: "foldl parse_header_line (m(n \<mapsto> js_trim v)) (map ?line L) = m(n \<mapsto> js_trim v) ++ map_of (map ?val L)"
    using Cons.prems h by (intro Cons.IH) auto
  have d: "n \<notin> dom (map_of (map ?val L))"
  proof -
    have "n \<notin> fst ` set L" using Cons.prems(1) h by simp
    moreover have "fst ` set (map ?val L) = fst ` set L"
      by (induction L) auto
    ultimately show ?thesis by (simp add: dom_map_of_conv_image_fst)
  qed
  have "foldl parse_header_line m (map ?line (h # L))
      = foldl parse_header_line (parse_header_line m (n @ '': '' @ v @ [CHR 0x0D])) (map ?line L)"
    by (simp add: h)
  also have "\<dots> = foldl parse_header_line (m(n \<mapsto> js_trim v)) (map ?line L)"
    unfolding p ..
  also have "\<dots> = m(n \<mapsto> js_trim v) ++ map_of (map ?val L)"
    by (rule ih)
  also have "\<dots> = (m ++ map_of (map ?val L))(n \<mapsto> js_trim v)"
    by (rule map_add_upd_left [OF d])
  also have "\<dots> = m ++ map_of (map ?val (h # L))"
    by (simp add: h)
  finally show ?case .
qed


lemma axios_headers_lookup:
  assumes "\<forall>h\<in>set hs. wf_header h"
  shows "axios_parse_headers (get_all_response_headers hs) k =
    (if k \<in> set (map (\<lambda>(n, v). lower n) hs) then Some (js_trim (combined_value hs k)) else None)"
proof -
  let ?ns = "sort (remdups (map (\<lambda>(n, v). lower n) hs))"
  let ?L = "sort_and_combine hs"
  have L: "?L = map (\<lambda>n. (n, combined_value hs n)) ?ns" by (simp add: sort_and_combine_def)
  have key: "\<forall>h\<in>set ?L. key_name (fst h)"
    using assms by (fastforce simp: L wf_header_def intro: key_name_lower)
  have vals: "CHR ''\<newline>'' \<notin> set (combined_value hs n)" for n
  proof
    assume "CHR ''\<newline>'' \<in> set (combined_value hs n)"
    with set_join [of "'', ''" "map snd (filter (\<lambda>(m, v). lower m = n) hs)"] obtain h
      where "h \<in> set hs" "CHR ''\<newline>'' \<in> set (snd h)"
      by (auto simp: combined_value_def)
    with assms show False by (auto simp: wf_header_def)
  qed
  have lf: "\<forall>h\<in>set ?L. CHR ''\<newline>'' \<notin> set (fst h) \<and> CHR ''\<newline>'' \<notin> set (snd h)"
    using key vals by (auto simp: L key_name_def dest: tchar_props)
  have dist: "distinct (map fst ?L)" by (simp add: L comp_def)
  have "axios_parse_headers (get_all_response_headers hs)
      = foldl parse_header_line Map.empty (map (\<lambda>(n, v). n @ '': '' @ v @ [CHR 0x0D]) ?L @ [[]])"
    unfolding axios_parse_headers_def get_all_response_headers_def split_serialized [OF lf] ..
  also have "\<dots> = map_of (map (\<lambda>(n, v). (n, js_trim v)) ?L)"
    using fold_lines [OF dist key] by (simp add: parse_header_line_Nil)
  also have "\<dots> = (Some \<circ> (\<lambda>n. js_trim (combined_value hs n))) |` set ?ns"
    using map_of_map_restrict [of "\<lambda>n. js_trim (combined_value hs n)" ?ns] by (simp add: L comp_def)
  finally show ?thesis by (simp add: restrict_map_def)
qed


lemma receive_headers:
  assumes "\<forall>h\<in>set (w_headers wr). wf_header h"
  shows "resp_headers (receive cross wr) k =
    (if k \<in> set (map (\<lambda>(n, v). lower n) (visible_headers cross (w_headers wr)))
     then Some (js_trim (combined_value (visible_headers cross (w_headers wr)) k)) else None)"
proof -
  have "\<forall>h\<in>set (visible_headers cross (w_headers wr)). wf_header h"
    using assms by (auto simp: visible_headers_def)
  then show ?thesis by (simp add: receive_def axios_headers_lookup)
qed

lemma disposition_hidden:
  assumes "''content-disposition'' \<notin> set (exposed_names hs)" and "''*'' \<notin> set (exposed_names hs)"
  shows "''content-disposition'' \<notin> set (map (\<lambda>(n, v). lower n) (visible_headers True hs))"
  using assms by (auto simp: visible_headers_def cors_exposed_def cors_safelisted_def)

lemma disposition_visible:
  assumes "\<not> cross \<or> ''content-disposition'' \<in> set (exposed_names hs)"
  shows "filter (\<lambda>(m, v). lower m = ''content-disposition'') (visible_headers cross hs)
       = filter (\<lambda>(m, v). lower m = ''content-disposition'') hs"
  using assms
  by (auto simp: visible_headers_def cors_exposed_def forbidden_response_header_def filter_filter
      intro!: filter_cong)

text \<open>
  C17: the page and the API are different origins, so unless the server names
  Content-Disposition in Access-Control-Expose-Headers (or exposes every header with
  \<^verbatim>\<open>*\<close>), the browser hides the header from axios and \<open>transformImage\<close> names every
  result \<^verbatim>\<open>converted.fmt\<close>, whatever filename the server sends.
\<close>

theorem cors_hides_filename:
  assumes "\<forall>h\<in>set (w_headers wr). wf_header h" and "validate_status (w_status wr)"
    and "''content-disposition'' \<notin> set (exposed_names (w_headers wr))"
    and "''*'' \<notin> set (exposed_names (w_headers wr))"
  shows "transform_image fmt (NetResp (receive True wr))
         = Inr \<lparr>tr_data = w_body wr, tr_filename = ''converted.'' @ fmt\<rparr>"
proof -
  have "resp_headers (receive True wr) ''content-disposition'' = None"
    using receive_headers [OF assms(1)] disposition_hidden [OF assms(3,4)] by simp
  with assms(2) show ?thesis
    by (simp add: transform_image_def axios_settle_def xhr_deliver_def validate_status_def
        derive_filename_def receive_def)
qed


text \<open>
  C18: once the server exposes Content-Disposition (or the page is served from the API's
  origin), a single header \<^verbatim>\<open>attachment; filename="n"\<close> reaches \<open>transformImage\<close>
  through the browser and axios unchanged, and the result is named \<open>n\<close>.
\<close>

theorem exposed_filename:
  assumes "\<forall>h\<in>set (w_headers wr). wf_header h" and "validate_status (w_status wr)"
    and "\<not> cross \<or> ''content-disposition'' \<in> set (exposed_names (w_headers wr))"
    and "map snd (filter (\<lambda>(m, v). lower m = ''content-disposition'') (w_headers wr))
         = [''attachment; filename=\"'' @ n @ ''\"'']"
    and "n \<noteq> []" and "\<forall>c\<in>set n. line_char c"
  shows "transform_image fmt (NetResp (receive cross wr)) = Inr \<lparr>tr_data = w_body wr, tr_filename = n\<rparr>"
proof -
  let ?V = "visible_headers cross (w_headers wr)" and ?cd = "''attachment; filename=\"'' @ n @ ''\"''"
  have f: "map snd (filter (\<lambda>(m, v). lower m = ''content-disposition'') ?V) = [?cd]"
    using disposition_visible [OF assms(3)] assms(4) by simp
  then have "''content-disposition'' \<in> set (map (\<lambda>(n, v). lower n) ?V)"
    by (force simp: filter_eq_Cons_iff dest: arg_cong [of _ _ set])
  moreover have "combined_value ?V ''content-disposition'' = ?cd"
    using f by (simp add: combined_value_def)
  moreover have "js_trim ?cd = ?cd"
    by (rule js_trim_ends) (simp add: js_space_def)
  ultimately have h: "resp_headers (receive cross wr) ''content-disposition'' = Some ?cd"
    using receive_headers [OF assms(1)] by simp
  have "match_search (''attachment; '' @ filename_key @ n @ CHR ''\"'' # []) = Some n"
    by (rule match_search_after_prefix) (use assms(5,6) in simp_all)
  then have "derive_filename fmt (Some ?cd) = n"
    by (simp add: derive_filename_def filename_key_def)
  with h assms(2) show ?thesis
    by (simp add: transform_image_def axios_settle_def xhr_deliver_def validate_status_def receive_def)
qed


lemma photo_wire_facts:
  "\<forall>h\<in>set (w_headers photo_wire_exposed). wf_header h"
  "\<forall>h\<in>set (w_headers photo_wire_hidden). wf_header h"
  "validate_status (w_status photo_wire_hidden)" "validate_status (w_status photo_wire_exposed)"
  "exposed_names (w_headers photo_wire_hidden) = []"
  "exposed_names (w_headers photo_wire_exposed) = [''content-disposition'']"
  "map snd (filter (\<lambda>(m, v). lower m = ''content-disposition'') (w_headers photo_wire_exposed))
     = [''attachment; filename=\"'' @ ''photo.png'' @ ''\"'']"
  "w_body photo_wire_exposed = w_body photo_wire_hidden"
  by (simp_all add: photo_wire_hidden_def photo_wire_exposed_def wf_header_def tchar_def
      validate_status_def exposed_names_def lower_def ascii_lower_def http_strip_def char_of_iff)

theorem cors_hides_filename_witness:
  "transform_image ''png'' (NetResp (receive True photo_wire_hidden))
     = Inr \<lparr>tr_data = w_body photo_wire_hidden, tr_filename = ''converted.png''\<rparr>"
  using cors_hides_filename [of photo_wire_hidden "''png''"] photo_wire_facts by simp

theorem exposed_filename_witness:
  "transform_image ''png'' (NetResp (receive True photo_wire_exposed))
     = Inr \<lparr>tr_data = w_body photo_wire_exposed, tr_filename = ''photo.png''\<rparr>"
  using exposed_filename [of photo_wire_exposed True "''photo.png''" "''png''"] photo_wire_facts
  by (simp add: is_line_terminator_def)

end
