(* ===== verification/Spec2Isabelle.thy ===== *)
theory Spec2Isabelle
  imports Spec_Machine Http_Headers
begin

text \<open>
  \<^bold>\<open>A verification development of the File Transformation API web client.\<close>

  The repository's client (src/React_Frontend/src) is a single React page:
  \<^item> src/React_Frontend/src/api/fileApi.ts, the API client: \<open>checkHealth\<close> asks
    \<^verbatim>\<open>GET /health\<close>; \<open>transformImage\<close> posts the file as multipart form data to
    \<^verbatim>\<open>/transform?to=fmt\<close>, asks for a blob, and derives the output filename from the
    Content-Disposition header with the regular expression \<^verbatim>\<open>/filename="(.+)"/\<close>,
    falling back to \<^verbatim>\<open>converted.fmt\<close>;
  \<^item> src/React_Frontend/src/App.tsx, the session controller: React state for the selected
    file, preview, target format, status, error message, converted blob and filename,
    backend health and drag highlight; handlers for file input, drag and drop, convert,
    download and reset; the JSX that shows the upload area or the conversion panel.
  The page calls the API client from its mount effect (health) and from
  \<open>handleConvert\<close>; both calls are asynchronous, as is the \<open>FileReader\<close> preview read,
  and their continuations run whenever they complete.

  \<^bold>\<open>Theories.\<close>
  \<^item> \<open>Prelude\<close>: the byte type, \<open>startsWith\<close>, removal by position (with its multiset
    lemma), the first suffix on which an option-valued test succeeds (the shape of a
    leftmost regular-expression search), and the collections \<open>api_simps\<close> and
    \<open>handler_simps\<close> of unfolding rules.
  \<^item> \<open>Regex_Filename\<close>: the match of \<^verbatim>\<open>/filename="(.+)"/\<close> (fileApi.ts line 52), with
    the ECMAScript semantics of that pattern: \<open>match_at\<close> is one attempt, \<open>match_search\<close>
    the leftmost-first scan. Its lemmas characterise the result declaratively
    (\<open>match_search_spec\<close>: leftmost, greedy to the last quote of the line, no line
    terminator) and show the match is found whenever the pattern occurs.
  \<^item> \<open>File_Api\<close>: \<open>check_health\<close> and \<open>transform_image\<close> as functions of the outcome of
    the HTTP exchange (\<open>NetFail\<close> or \<open>NetResp\<close>), \<open>derive_filename\<close> (lines 47-56),
    the requests they send. axios is a library: only its XHR adapter's treatment of a
    status-0 completion (\<open>xhr_deliver\<close>: a network error) and its default settle rule
    (\<open>axios_settle\<close>: 2xx fulfils, any other non-zero status rejects with the response
    attached) are modelled, from its source. Lemmas: the health result on every outcome, the
    success condition of \<open>transformImage\<close>, the filename round trip, and what the greedy
    group does with further parameters.
  \<^item> \<open>Http_Headers\<close>: how the server's headers become the object
    \<open>response.headers\<close> that \<open>transformImage\<close> reads (fileApi.ts line 48): the
    browser's CORS filter of a cross-origin response (Fetch), the header text of
    \<open>XMLHttpRequest.getAllResponseHeaders\<close> (names lower-cased, sorted, values of one
    name combined) and axios's \<open>parseHeaders\<close>, composed as \<open>receive\<close>. None of it is
    code of the repository; it is modelled from the standards and the library's source.
    Its lemmas show that parsing inverts the browser's serialisation for well-formed
    headers, so the headers object maps each exposed lower-cased name to its trimmed
    combined value, and the claims follow the Content-Disposition header to the filename.
  \<^item> \<open>Data_Url\<close>: the result of the browser's \<open>FileReader.readAsDataURL\<close>, which
    \<open>handleFileSelect\<close> calls for the preview (App.tsx lines 42-47): \<open>data:\<close>, the
    file's type, \<open>;base64,\<close> and the RFC 4648 base64 encoding of its bytes
    (\<open>read_as_data_url\<close>), and the reading of a data URL that the image element applies
    (\<open>parse_data_url\<close>). Not code of the repository, modelled from the standards; its
    lemmas prove that base64 decoding inverts encoding on every byte list (the three-byte
    groups by word arithmetic on \<open>unat\<close>) and that a data URL read back gives the file's
    type and bytes.
  \<^item> \<open>Display_Format\<close>: the texts the page computes for display, the size of the
    selected file \<open>(selectedFile.size / 1024).toFixed(2)\<close> (App.tsx line 176) and
    the download label \<open>targetFormat.toUpperCase()\<close> (line 222), with the engine's
    \<open>Number.prototype.toFixed\<close> and \<open>String.prototype.toUpperCase\<close> modelled from
    ECMAScript. Its lemmas read the size text back (decimal printing and reading are
    inverse) and show the value shown is the hundredth nearest to the exact size, the
    larger of two equally near ones.
  \<^item> \<open>App_State\<close>: the React state of \<open>App\<close> as the record \<open>app_state\<close> (lines 9-17),
    its status and format types, and the asynchronous operations with their outcomes.
  \<^item> \<open>Render\<close>: the JSX as \<open>render\<close>, what the page shows, enables and labels, and
    \<open>render_throws\<close>, the states in which rendering throws: the status message of
    line 241 renders \<open>errorMessage\<close> as a child, and React throws on a \<open>Blob\<close>
    there. With no error boundary the throw unmounts the whole page.
  \<^item> \<open>Session\<close>: one function per handler
    (\<open>handle_file_select\<close>, \<open>handle_convert\<close>, \<open>convert_done\<close>, \<open>handle_reset\<close>,
    \<open>handle_download\<close>, ...), the code after each \<open>await\<close> or callback as its own
    function, the event bindings of the JSX as \<open>ui_allows\<close>, and the page as the record
    \<open>world\<close> with the operations in flight. \<open>step\<close> is one event: a user event that the
    rendered page allows (\<open>ui_allows\<close>), or the completion of any operation in flight,
    in any order, which is how the single-threaded event loop interleaves them
    (spec section 5). A page whose render has thrown is unmounted and takes no step: its
    handlers are gone and the \<open>setState\<close> calls of late completions are ignored. \<open>reachable\<close> is the set of pages reachable from the first render.
    Invariants proved by rule induction over \<open>reachable\<close>: success implies a result,
    converting implies a request in flight (so the converting state always ends), the
    health check is pending exactly until it reports and is never repeated, no object URL
    outlives a download, the preview is always the data URL of an accepted image file, a success always has a
    non-empty filename and every saved file is named; \<open>wf_world\<close> is their conjunction
    and every step preserves it.
    Lemmas per handler: acceptance and rejection of files, drop equals
    pick, the guards of convert and download, reset, retry after a network failure, the
    target format frozen while converting, health gating the convert action only, what a
    failed conversion does (a transport failure is shown with its message, an error
    response makes the render throw, and nothing else does), no dead end on a mounted page while the backend is
    healthy (any image converts in at most four steps), and the preview
    of a picked image decoding to the file's own type and bytes, and the size text of the
    file information.
  \<^item> \<open>Spec_Machine\<close>: the contract of the controller, the state machine of spec
    section 4.1 as the inductive relation \<open>spec_step\<close> over an abstract state (source,
    status, result, health), and \<open>abs_world\<close>, which reads it off a page (the result
    only in status success, where the page shows it). \<open>page_refines_spec\<close>: every step
    of a reachable page is a stutter or a spec transition, unless it is the completion of
    a stale conversion request (\<open>stale_completion\<close>), which the code does not guard
    against; \<open>stale_completion_breaks_spec\<close> shows such a step is reachable and is no
    spec transition.
  \<^item> This theory: properties across the components (the filename a completed conversion
    offers is the one \<open>transformImage\<close> derives, with the format captured when the
    request was sent) and the findings as concrete runs of the page.

  \<^bold>\<open>Bounds and executability.\<close> Every definition is executable; the runs of the
  findings are evaluated by the simplifier. The regular expression scan is
  structural recursion on the header, so no fuel is needed; nothing of the client loops.
  \<open>toFixed\<close> is modelled below \<open>10^21\<close>, its exact range; above it the result is
  \<open>None\<close>. The size claim assumes a size below \<open>2^53\<close>, the safe integers that
  \<open>File.size\<close> takes, for which \<open>size / 1024\<close> is exact in a double.

  \<^bold>\<open>Findings.\<close> The code has no stale-result guard (spec section 5 requires one): a
  late conversion response or preview read for a file that has been replaced is applied
  to the new session (\<open>stale_transform_result\<close>, \<open>stale_preview\<close>). The validation
  error for a non-image file is set while the upload area is shown, which has no message
  area, so it is never displayed (\<open>rejected_file_message_hidden\<close>). With
  \<open>responseType: 'blob'\<close> the server's error body is a Blob object, so after any
  non-2xx response \<open>errorMessage\<close> holds that object; rendering it at line 241 throws,
  React unmounts the page, and the user can neither read the error nor retry or start
  over (\<open>error_response_crashes_page\<close>). Converting again
  from success does not clear the previous result, so a failure leaves it in place
  (\<open>failed_retry_keeps_result\<close>). \<open>checkHealth\<close> accepts only status 200, not every 2xx
  (\<open>File_Api.check_health_iff\<close>); the greedy group swallows later header parameters
  (\<open>File_Api.derive_filename_greedy\<close>). The page calls the API on another origin, so
  unless the server exposes Content-Disposition the browser hides it and every result is
  named \<^verbatim>\<open>converted.fmt\<close> (\<open>Http_Headers.cors_hides_filename\<close>), a requirement
  on the server the spec does not state.

  \<^bold>\<open>Plan.\<close> Modelled in this order, most important behaviour first: the session
  controller's state machine and its invariants, the filename match and the API client,
  the spec contract and its refinement for single steps and for runs without stale
  completions, the contents of the preview (the \<open>FileReader\<close> data URL as a function
  of the file, with base64 encoding and its round trip), the texts of the rendered page
  (health indicator, file information with the size, convert and download labels), the
  way the response headers reach axios through the CORS filter and
  \<open>getAllResponseHeaders\<close>, and the error path of a failed conversion with the render
  crash it causes. All of it is
  done; every line of the two source files that is not an import, a comment or a closing
  brace is translated by a definition.

  \<^bold>\<open>Not modelled.\<close> The transformation service (external, only its responses),
  console logging, CSS and icons, the decoding of the previewed image itself (the data
  URL is followed to its bytes, not to pixels), the file input's value reset (the element
  is unmounted when it runs), the download anchor's DOM insertion and removal (no state),
  React's development-mode double effects, and React's error handling beyond its outcome
  here (a render that throws, with no error boundary, unmounts the page). Of axios only what the client depends on
  is modelled (the status-0 rule of its XHR adapter, the settle rule, the error object and
  the header parser); its request
  encoding, interceptors and transforms are library internals the client neither
  configures nor observes, so axios stays partly modelled. The stale-result guard that
  spec section 9 proposes (a generation counter checked at completion) is not in the code
  and is not modelled: it would verify a fix rather than the program, whose lack of it
  the findings \<open>stale_transform_result\<close>, \<open>stale_preview\<close> and
  \<open>Spec_Machine.stale_completion_breaks_spec\<close> record.
\<close>

text \<open>
  C32: a response to a conversion request of a file that has since been replaced is applied
  to the new session: after converting photo.jpg, resetting and picking shot.png, the
  late response for photo.jpg sets status success with its filename while shot.png is
  selected, and the page offers it for download.
\<close>

theorem stale_transform_result:
  "\<exists>w. run init_world [Complete 0 (HealthDone health_ok), PickFile (Some photo_jpg), ClickConvert,
          ClickReset, PickFile (Some shot_png), Complete 1 (TransformDone (NetResp photo_png_response))]
        = Some w
     \<and> selectedFile (app w) = Some shot_png \<and> status (app w) = Success
     \<and> convertedFilename (app w) = ''photo.png'' \<and> v_download (render (app w)) = Some Png"
  by (simp add: eval_simps)

text \<open>
  C34: a preview read of a file that has since been replaced overwrites the preview of the
  new file: when the read of photo.jpg completes after that of shot.png, the page shows
  an image whose data URL holds the type and bytes of photo.jpg while shot.png is
  selected.
\<close>

theorem stale_preview:
  "\<exists>w u. run init_world [PickFile (Some photo_jpg), ClickReset, PickFile (Some shot_png),
          Complete 2 ReadLoad, Complete 1 ReadLoad] = Some w
     \<and> selectedFile (app w) = Some shot_png \<and> v_preview (render (app w)) = Some u
     \<and> parse_data_url u = Some (''image/jpeg'', file_bytes photo_jpg)
     \<and> file_bytes photo_jpg \<noteq> file_bytes shot_png"
proof -
  have "\<exists>w. run init_world [PickFile (Some photo_jpg), ClickReset, PickFile (Some shot_png),
          Complete 2 ReadLoad, Complete 1 ReadLoad] = Some w
     \<and> selectedFile (app w) = Some shot_png
     \<and> v_preview (render (app w)) = Some (read_as_data_url photo_jpg)"
    by (simp add: eval_simps)
  moreover have "parse_data_url (read_as_data_url photo_jpg) = Some (''image/jpeg'', file_bytes photo_jpg)"
    using data_url_roundtrip [of photo_jpg] by (simp add: photo_jpg_def)
  moreover have "length (file_bytes photo_jpg) \<noteq> length (file_bytes shot_png)"
    by (simp add: photo_jpg_def shot_png_def)
  then have "file_bytes photo_jpg \<noteq> file_bytes shot_png" by metis
  ultimately show ?thesis by blast
qed

text \<open>
  C35: the validation error of a non-image file is never displayed: the status becomes
  error, but with no file selected the page shows the upload area and no status message.
\<close>

theorem rejected_file_message_hidden:
  "\<exists>w. run init_world [PickFile (Some notes_txt)] = Some w
     \<and> status (app w) = Error \<and> errorMessage (app w) = JsStr ''Please select an image file''
     \<and> v_upload_area (render (app w)) \<and> v_message (render (app w)) = None"
  by (simp add: eval_simps)

text \<open>
  C36: when the server answers a conversion with an error status, the page crashes: the
  error message becomes the response body as a Blob object, the render of line 241
  throws on it, React unmounts the page, and no event (retry, upload another, or any
  completion) has an effect any more.
\<close>

theorem error_response_crashes_page:
  "\<exists>w. run init_world [Complete 0 (HealthDone health_ok), PickFile (Some photo_jpg), ClickConvert,
          Complete 1 (TransformDone (NetResp server_error))] = Some w
     \<and> status (app w) = Error \<and> errorMessage (app w) = JsBlob (resp_body server_error)
     \<and> render_throws (app w) \<and> (\<forall>e. step w e = None)"
proof -
  have "\<exists>w. run init_world [Complete 0 (HealthDone health_ok), PickFile (Some photo_jpg), ClickConvert,
          Complete 1 (TransformDone (NetResp server_error))] = Some w
     \<and> status (app w) = Error \<and> errorMessage (app w) = JsBlob (resp_body server_error)
     \<and> render_throws (app w)"
    by (simp add: eval_simps)
  then show ?thesis using throws_no_step by blast
qed

text \<open>
  C37: a failed re-conversion keeps the previous converted result: status error with a
  converted result present, although the result should be present only on success.
\<close>

theorem failed_retry_keeps_result:
  "\<exists>w. run init_world [Complete 0 (HealthDone health_ok), PickFile (Some photo_jpg), ClickConvert,
          Complete 1 (TransformDone (NetResp photo_png_response)), ClickConvert,
          Complete 1 (TransformDone (NetResp server_error))] = Some w
     \<and> status (app w) = Error \<and> convertedBlob (app w) = Some (resp_body photo_png_response)"
  by (simp add: eval_simps)

text \<open>
  C38: after a successful conversion to png the format buttons stay enabled, and choosing
  jpg relabels the download button "Download JPG" while the file it saves is still the
  png result named photo.png.
\<close>

theorem download_label_mismatch:
  "\<exists>w. run init_world [Complete 0 (HealthDone health_ok), PickFile (Some photo_jpg), ClickConvert,
          Complete 1 (TransformDone (NetResp photo_png_response)), ClickFormat Jpg] = Some w
     \<and> v_download (render (app w)) = Some Jpg
     \<and> v_download_label (render (app w)) = Some ''Download JPG''
     \<and> convertedFilename (app w) = ''photo.png''
     \<and> convertedBlob (app w) = Some (resp_body photo_png_response)"
  by (simp add: eval_simps)

text \<open>
  C11: on a mounted page (one whose render has not thrown), the completion of a conversion
  request with a 2xx response sets status success, keeps
  the response body as the converted result and offers the filename that
  \<open>transformImage\<close> derives from the Content-Disposition header and the format captured
  when the request was sent (not the format selected now).
\<close>

theorem conversion_result_filename:
  assumes "\<not> render_throws (app w)" and "i < length (pending w)" and "pending w ! i = Transform f fmt"
      and "validate_status (resp_status r)"
  shows "\<exists>w'. step w (Complete i (TransformDone (NetResp r))) = Some w' \<and> status (app w') = Success
           \<and> convertedBlob (app w') = Some (resp_body r)
           \<and> convertedFilename (app w') = derive_filename (format_str fmt) (resp_headers r ''content-disposition'')"
  using assms by (simp add: handler_simps api_simps)

theorem conversion_result_filename_witness:
  "\<exists>w'. step (init_world\<lparr>pending := [Transform photo_jpg Png]\<rparr>)
          (Complete 0 (TransformDone (NetResp photo_png_response))) = Some w'
     \<and> status (app w') = Success \<and> convertedBlob (app w') = Some (resp_body photo_png_response)
     \<and> convertedFilename (app w') = derive_filename ''png'' (resp_headers photo_png_response ''content-disposition'')"
proof -
  have h: "\<not> render_throws (app (init_world\<lparr>pending := [Transform photo_jpg Png]\<rparr>))"
    "0 < length (pending (init_world\<lparr>pending := [Transform photo_jpg Png]\<rparr>))"
    "pending (init_world\<lparr>pending := [Transform photo_jpg Png]\<rparr>) ! 0 = Transform photo_jpg Png"
    "validate_status (resp_status photo_png_response)"
    by (simp_all add: photo_png_response_def validate_status_def init_world_def init_app_def)
  from conversion_result_filename [OF h] show ?thesis by simp
qed

end
